theory Spec2Isabelle
  imports Main "HOL-Library.Word" "HOL-Library.AList" "HOL-Library.Char_ord"
    "HOL-Library.List_Lexorder"
begin

unbundle bit_operations_syntax

section \<open>Library functions used by the formatter\<close>

subsection \<open>Decimal rendering of integers\<close>

text \<open>
  Go's \<^verbatim>\<open>int\<close> is taken at 64 bits (two's complement); \<^verbatim>\<open>%d\<close> prints its signed
  value in decimal, with a leading minus sign for a negative one.
\<close>

type_synonym go_int = "64 word"

definition digit :: "nat \<Rightarrow> char" where
  "digit n = ''0123456789'' ! (n mod 10)"

fun utoa :: "nat \<Rightarrow> string" where
  "utoa n = (if n < 10 then [digit n] else utoa (n div 10) @ [digit (n mod 10)])"

declare utoa.simps [simp del]

definition itoa :: "int \<Rightarrow> string" where
  "itoa i = (if i < 0 then CHR ''-'' # utoa (nat (- i)) else utoa (nat i))"

text \<open>
  \<^verbatim>\<open>appendInt(b, x, width)\<close> of package time: the sign, then the decimal digits of the
  absolute value, padded with zeros on the left up to \<^verbatim>\<open>width\<close>.
\<close>

definition appendInt :: "int \<Rightarrow> nat \<Rightarrow> string" where
  "appendInt x width =
     (let ds = utoa (nat \<bar>x\<bar>)
      in (if x < 0 then ''-'' else '''') @ replicate (width - length ds) CHR ''0'' @ ds)"

subsection \<open>Wall-clock time and \<^verbatim>\<open>Time.Format\<close>\<close>

text \<open>
  A \<^verbatim>\<open>time.Time\<close> as \<^verbatim>\<open>Format\<close> reads it: the civil date and clock in the time's
  location (what \<^verbatim>\<open>Date()\<close> and \<^verbatim>\<open>Clock()\<close> return) and the location's offset in
  seconds east of UTC (what \<^verbatim>\<open>Zone()\<close> returns).
\<close>

record time =
  year :: int
  month :: nat
  day :: nat
  hour :: nat
  minute :: nat
  second :: nat
  offset :: int

definition longMonthNames :: "string list" where
  "longMonthNames = [''January'', ''February'', ''March'', ''April'', ''May'', ''June'',
     ''July'', ''August'', ''September'', ''October'', ''November'', ''December'']"

definition Month_String :: "nat \<Rightarrow> string" where
  "Month_String m =
     (if 1 \<le> m \<and> m \<le> 12 then longMonthNames ! (m - 1)
      else ''%!Month('' @ utoa m @ '')'')"

text \<open>
  The layout elements of package time that are modelled. Weekday names, the day of
  the year, time-zone abbreviations and fractional seconds are not: scanning a layout
  treats their reference text as literal text.
\<close>

datatype std =
    stdLongMonth | stdMonth | stdNumMonth | stdZeroMonth
  | stdDay | stdZeroDay
  | stdHour | stdHour12 | stdZeroHour12
  | stdMinute | stdZeroMinute | stdSecond | stdZeroSecond
  | stdLongYear | stdYear | stdPM
  | stdNumTZ | stdNumColonTZ | stdNumShortTZ

definition startsWithLowerCase :: "string \<Rightarrow> bool" where
  "startsWithLowerCase s = (case s of [] \<Rightarrow> False | c # _ \<Rightarrow> CHR ''a'' \<le> c \<and> c \<le> CHR ''z'')"

definition has_prefix :: "string \<Rightarrow> string \<Rightarrow> bool" where
  "has_prefix p s = (take (length p) s = p)"

text \<open>
  One step of \<^verbatim>\<open>nextStdChunk\<close>: the layout element that starts at the head of the
  layout, with its length, if there is one. The tests are in the order of the Go
  source, first by the leading character, then from the longest reference text.
\<close>

definition stdChunkAt :: "string \<Rightarrow> (std \<times> nat) option" where
  "stdChunkAt l =
    (if has_prefix ''January'' l then Some (stdLongMonth, 7)
     else if has_prefix ''Jan'' l \<and> \<not> startsWithLowerCase (drop 3 l) then Some (stdMonth, 3)
     else if has_prefix ''01'' l then Some (stdZeroMonth, 2)
     else if has_prefix ''02'' l then Some (stdZeroDay, 2)
     else if has_prefix ''03'' l then Some (stdZeroHour12, 2)
     else if has_prefix ''04'' l then Some (stdZeroMinute, 2)
     else if has_prefix ''05'' l then Some (stdZeroSecond, 2)
     else if has_prefix ''06'' l then Some (stdYear, 2)
     else if has_prefix ''15'' l then Some (stdHour, 2)
     else if has_prefix ''1'' l then Some (stdNumMonth, 1)
     else if has_prefix ''2006'' l then Some (stdLongYear, 4)
     else if has_prefix ''2'' l then Some (stdDay, 1)
     else if has_prefix ''3'' l then Some (stdHour12, 1)
     else if has_prefix ''4'' l then Some (stdMinute, 1)
     else if has_prefix ''5'' l then Some (stdSecond, 1)
     else if has_prefix ''PM'' l then Some (stdPM, 2)
     else if has_prefix ''-07:00'' l then Some (stdNumColonTZ, 6)
     else if has_prefix ''-0700'' l then Some (stdNumTZ, 5)
     else if has_prefix ''-07'' l then Some (stdNumShortTZ, 3)
     else None)"

text \<open>Go's integer division truncates towards zero.\<close>

definition quo :: "int \<Rightarrow> int \<Rightarrow> int" where
  "quo a b = sgn a * sgn b * (\<bar>a\<bar> div \<bar>b\<bar>)"

definition hour12 :: "nat \<Rightarrow> nat" where
  "hour12 h = (let hr = h mod 12 in if hr = 0 then 12 else hr)"

definition appendZone :: "std \<Rightarrow> int \<Rightarrow> string" where
  "appendZone s off =
     (let zone = quo off 60;
          sign = (if zone < 0 then ''-'' else ''+'');
          zone = (if zone < 0 then - zone else zone)
      in sign @ appendInt (zone div 60) 2
           @ (if s = stdNumColonTZ then '':'' else '''')
           @ (if s = stdNumShortTZ then '''' else appendInt (zone mod 60) 2))"

definition appendStd :: "time \<Rightarrow> std \<Rightarrow> string" where
  "appendStd t s =
    (case s of
       stdLongMonth \<Rightarrow> Month_String (month t)
     | stdMonth \<Rightarrow> take 3 (Month_String (month t))
     | stdNumMonth \<Rightarrow> appendInt (int (month t)) 0
     | stdZeroMonth \<Rightarrow> appendInt (int (month t)) 2
     | stdDay \<Rightarrow> appendInt (int (day t)) 0
     | stdZeroDay \<Rightarrow> appendInt (int (day t)) 2
     | stdHour \<Rightarrow> appendInt (int (hour t)) 2
     | stdHour12 \<Rightarrow> appendInt (int (hour12 (hour t))) 0
     | stdZeroHour12 \<Rightarrow> appendInt (int (hour12 (hour t))) 2
     | stdMinute \<Rightarrow> appendInt (int (minute t)) 0
     | stdZeroMinute \<Rightarrow> appendInt (int (minute t)) 2
     | stdSecond \<Rightarrow> appendInt (int (second t)) 0
     | stdZeroSecond \<Rightarrow> appendInt (int (second t)) 2
     | stdLongYear \<Rightarrow> appendInt (year t) 4
     | stdYear \<Rightarrow> appendInt (year t mod 100) 2
     | stdPM \<Rightarrow> (if 12 \<le> hour t then ''PM'' else ''AM'')
     | stdNumTZ \<Rightarrow> appendZone s (offset t)
     | stdNumColonTZ \<Rightarrow> appendZone s (offset t)
     | stdNumShortTZ \<Rightarrow> appendZone s (offset t))"

text \<open>
  \<^verbatim>\<open>t.Format(layout)\<close>: the layout is scanned from the left; a layout element is replaced
  by the time's value and every other character is copied. The counter \<open>skip\<close> is the
  number of characters of the current element still to be passed over.
\<close>

fun formatFrom :: "time \<Rightarrow> nat \<Rightarrow> string \<Rightarrow> string" where
  "formatFrom t skip [] = []"
| "formatFrom t skip (c # l) =
     (if 0 < skip then formatFrom t (skip - 1) l
      else (case stdChunkAt (c # l) of
              Some (s, n) \<Rightarrow> appendStd t s @ formatFrom t (n - 1) l
            | None \<Rightarrow> c # formatFrom t 0 l))"

definition Format :: "time \<Rightarrow> string \<Rightarrow> string" where
  "Format t layout = formatFrom t 0 layout"

subsection \<open>\<^verbatim>\<open>fmt.Sprintf\<close>\<close>

text \<open>
  The operands are strings and integers; the verbs modelled are \<^verbatim>\<open>%s\<close>, \<^verbatim>\<open>%d\<close> and
  \<^verbatim>\<open>%%\<close>, with Go's texts for a missing operand, an operand of the wrong kind and
  operands left over.
\<close>

datatype arg = S string | D int

definition badVerb :: "char \<Rightarrow> arg \<Rightarrow> string" where
  "badVerb v a =
     ''%!'' @ [v] @ (case a of S s \<Rightarrow> ''(string='' @ s @ '')'' | D i \<Rightarrow> ''(int='' @ itoa i @ '')'')"

fun extraArgs :: "arg list \<Rightarrow> string" where
  "extraArgs [] = []"
| "extraArgs [a] = (case a of S s \<Rightarrow> ''string='' @ s | D i \<Rightarrow> ''int='' @ itoa i)"
| "extraArgs (a # b # as) =
     (case a of S s \<Rightarrow> ''string='' @ s | D i \<Rightarrow> ''int='' @ itoa i) @ '', '' @ extraArgs (b # as)"

fun Sprintf :: "string \<Rightarrow> arg list \<Rightarrow> string" where
  "Sprintf [] args = (if args = [] then [] else ''%!(EXTRA '' @ extraArgs args @ '')'')"
| "Sprintf (c # f) args =
     (if c \<noteq> CHR ''%'' then c # Sprintf f args
      else (case f of
              [] \<Rightarrow> ''%!(NOVERB)''
            | v # f' \<Rightarrow>
                if v = CHR ''%'' then CHR ''%'' # Sprintf f' args
                else (case args of
                        [] \<Rightarrow> ''%!'' @ [v] @ ''(MISSING)'' @ Sprintf f' []
                      | a # as \<Rightarrow>
                          (case (v = CHR ''s'', v = CHR ''d'', a) of
                             (True, _, S s) \<Rightarrow> s
                           | (_, True, D i) \<Rightarrow> itoa i
                           | _ \<Rightarrow> badVerb v a) @ Sprintf f' as)))"

section \<open>The request, the response wrapper and the formatter\<close>

text \<open>
  The fields of \<^verbatim>\<open>http.Request\<close> that the formatter reads. \<^verbatim>\<open>Header\<close> is Go's
  \<^verbatim>\<open>map[string][]string\<close>; \<^verbatim>\<open>Get\<close> returns the first value stored under the key, or
  the empty string. The two keys looked up by the formatter are already in canonical
  form, so the canonicalisation of the key is the identity on them.
\<close>

record Request =
  RemoteAddr :: string
  Method :: string
  RequestURI :: string
  Proto :: string
  Header :: "string \<rightharpoonup> string list"

definition Header_Get :: "(string \<rightharpoonup> string list) \<Rightarrow> string \<Rightarrow> string" where
  "Header_Get h key = (case h key of None \<Rightarrow> '''' | Some [] \<Rightarrow> '''' | Some (v # _) \<Rightarrow> v)"

type_synonym LogFormat = string

definition CommonLogFormat :: LogFormat where
  "CommonLogFormat = ''common''"

definition CombinedLogFormat :: LogFormat where
  "CombinedLogFormat = ''combined''"

text \<open>
  \<^verbatim>\<open>responseWrapper\<close>: the embedded \<^verbatim>\<open>http.ResponseWriter\<close> (its state, of type \<open>'u\<close>)
  and the two captured values.
\<close>

record 'u responseWrapper =
  ResponseWriter :: 'u
  status :: go_int
  size :: go_int

definition formatLogEntry ::
  "Request \<Rightarrow> ('u, 'x) responseWrapper_scheme \<Rightarrow> time \<Rightarrow> LogFormat \<Rightarrow> string" where
  \<open>formatLogEntry r wrapper start format =
     (let remoteAddr = RemoteAddr r;
          timeFormatted = Format start ''[02/Jan/2006:15:04:05 -0700]'';
          logEntry = Sprintf ''%s - - %s "%s %s %s" %d %d''
            [S remoteAddr, S timeFormatted, S (Method r), S (RequestURI r), S (Proto r),
             D (sint (status wrapper)), D (sint (size wrapper))]
      in if format = CombinedLogFormat then
           (let referer = Header_Get (Header r) ''Referer'';
                referer = (if referer = '''' then ''-'' else referer);
                userAgent = Header_Get (Header r) ''User-Agent'';
                userAgent = (if userAgent = '''' then ''-'' else userAgent)
            in Sprintf ''%s "%s" "%s"'' [S logEntry, S referer, S userAgent])
         else logEntry)\<close>

section \<open>The response wrapper's methods and the middleware\<close>

text \<open>
  The embedded \<^verbatim>\<open>http.ResponseWriter\<close> is an interface value: any implementation, given
  here by its two methods as functions on the implementation's state. \<^verbatim>\<open>Write\<close>
  returns the number of bytes it accepted and an error (\<open>None\<close> is Go's \<^verbatim>\<open>nil\<close>).
\<close>

type_synonym byte = "8 word"

type_synonym error = string

record 'u ResponseWriter_impl =
  impl_Write :: "'u \<Rightarrow> byte list \<Rightarrow> (go_int \<times> error option) \<times> 'u"
  impl_WriteHeader :: "'u \<Rightarrow> go_int \<Rightarrow> 'u"

definition WriteHeader ::
  "'u ResponseWriter_impl \<Rightarrow> 'u responseWrapper \<Rightarrow> go_int \<Rightarrow> 'u responseWrapper" where
  "WriteHeader I rw st =
     (let rw = rw\<lparr>status := st\<rparr>
      in rw\<lparr>ResponseWriter := impl_WriteHeader I (ResponseWriter rw) st\<rparr>)"

definition Write ::
  "'u ResponseWriter_impl \<Rightarrow> 'u responseWrapper \<Rightarrow> byte list
     \<Rightarrow> (go_int \<times> error option) \<times> 'u responseWrapper" where
  "Write I rw b =
     (let ((n, err), u) = impl_Write I (ResponseWriter rw) b;
          rw = rw\<lparr>ResponseWriter := u\<rparr>;
          rw = rw\<lparr>size := size rw + n\<rparr>
      in ((n, err), rw))"

text \<open>
  What a handler does with the writer it is given, as the sequence of method calls it
  makes, and what each call returned to it.
\<close>

datatype call = CallWriteHeader go_int | CallWrite "byte list"

datatype result = HeaderWritten | Written go_int "error option"

fun run_calls ::
  "'u ResponseWriter_impl \<Rightarrow> 'u responseWrapper \<Rightarrow> call list
     \<Rightarrow> result list \<times> 'u responseWrapper" where
  "run_calls I rw [] = ([], rw)"
| "run_calls I rw (CallWriteHeader st # cs) =
     (let (rs, rw') = run_calls I (WriteHeader I rw st) cs in (HeaderWritten # rs, rw'))"
| "run_calls I rw (CallWrite b # cs) =
     (let ((n, err), rw1) = Write I rw b;
          (rs, rw') = run_calls I rw1 cs
      in (Written n err # rs, rw'))"

text \<open>The same calls made on the underlying writer itself, with no wrapper.\<close>

fun direct_calls ::
  "'u ResponseWriter_impl \<Rightarrow> 'u \<Rightarrow> call list \<Rightarrow> result list \<times> 'u" where
  "direct_calls I u [] = ([], u)"
| "direct_calls I u (CallWriteHeader st # cs) =
     (let (rs, u') = direct_calls I (impl_WriteHeader I u st) cs in (HeaderWritten # rs, u'))"
| "direct_calls I u (CallWrite b # cs) =
     (let ((n, err), u1) = impl_Write I u b;
          (rs, u') = direct_calls I u1 cs
      in (Written n err # rs, u'))"

text \<open>
  A handler's run for a request: the calls it makes on the writer, and whether it then
  returns or panics. Whatever a handler computes from what the calls return to it, one
  run of it makes one such sequence of calls, so what holds for every sequence holds
  for every handler. The access logger \<^verbatim>\<open>*zap.Logger\<close> is the list of the entries
  written through it; its core is enabled at the info level, so \<^verbatim>\<open>Info\<close> appends.
\<close>

datatype ending = Returns | Panics

type_synonym handler = "Request \<Rightarrow> call list \<times> ending"

type_synonym logger = "string list"

definition Info :: "logger \<Rightarrow> string \<Rightarrow> logger" where
  "Info lg msg = lg @ [msg]"

text \<open>
  The handler returned by \<^verbatim>\<open>ApacheLogMiddleware(logger, format)(next)\<close>, run on a writer
  in state \<open>w\<close> and a request \<open>r\<close>; \<open>now\<close> is what \<^verbatim>\<open>time.Now()\<close> reads on entry. A
  panic of \<^verbatim>\<open>next.ServeHTTP\<close> leaves the function at that call: there is no deferred
  call and no recover.
\<close>

definition ApacheLogMiddleware ::
  "'u ResponseWriter_impl \<Rightarrow> time \<Rightarrow> logger \<Rightarrow> LogFormat \<Rightarrow> handler \<Rightarrow> 'u \<Rightarrow> Request
     \<Rightarrow> ending \<times> 'u \<times> logger" where
  "ApacheLogMiddleware I now lg format next w r =
     (let start = now;
          wrapper = \<lparr>ResponseWriter = w, status = 200, size = 0\<rparr>;
          (calls, ending) = next r;
          (rs, wrapper) = run_calls I wrapper calls
      in case ending of
           Panics \<Rightarrow> (Panics, ResponseWriter wrapper, lg)
         | Returns \<Rightarrow>
             (let logEntry = formatLogEntry r wrapper start format
              in (Returns, ResponseWriter wrapper, Info lg logEntry)))"

section \<open>The file system and the path functions\<close>

subsection \<open>Package \<^verbatim>\<open>path/filepath\<close>, with \<^verbatim>\<open>/\<close> as the separator\<close>

type_synonym path = string

definition is_sep :: "char \<Rightarrow> bool" where
  "is_sep c = (c = CHR ''/'')"

text \<open>\<^verbatim>\<open>Split\<close>: the path up to and including its last separator, and what follows it.\<close>

definition Split :: "path \<Rightarrow> path \<times> string" where
  "Split p =
     (rev (dropWhile (\<lambda>c. \<not> is_sep c) (rev p)), rev (takeWhile (\<lambda>c. \<not> is_sep c) (rev p)))"

text \<open>\<^verbatim>\<open>Ext\<close>: the suffix of the last element from its last dot on, or the empty string.\<close>

definition Ext :: "path \<Rightarrow> string" where
  "Ext p =
     (let name = snd (Split p)
      in if CHR ''.'' \<in> set name
         then CHR ''.'' # rev (takeWhile (\<lambda>c. c \<noteq> CHR ''.'') (rev name))
         else '''')"

fun split_sep :: "string \<Rightarrow> string list" where
  "split_sep [] = [[]]"
| "split_sep (c # s) =
     (if is_sep c then [] # split_sep s
      else (case split_sep s of [] \<Rightarrow> [[c]] | e # es \<Rightarrow> (c # e) # es))"

fun join_sep :: "string list \<Rightarrow> string" where
  "join_sep [] = []"
| "join_sep [e] = e"
| "join_sep (e # f # es) = e @ ''/'' @ join_sep (f # es)"

text \<open>
  \<^verbatim>\<open>Clean\<close>: empty and \<^verbatim>\<open>.\<close> elements are dropped, a \<^verbatim>\<open>..\<close> element removes the element
  before it (at the root it is dropped, at the start of a relative path it stays), and
  the empty result of a relative path is \<^verbatim>\<open>.\<close>. The elements kept so far are held in
  reverse.
\<close>

fun clean_elems :: "bool \<Rightarrow> string list \<Rightarrow> string list \<Rightarrow> string list" where
  "clean_elems rooted [] out = rev out"
| "clean_elems rooted (e # es) out =
     (if e = '''' \<or> e = ''.'' then clean_elems rooted es out
      else if e = ''..'' then
        (case out of
           [] \<Rightarrow> if rooted then clean_elems rooted es [] else clean_elems rooted es [''..'']
         | a # out' \<Rightarrow>
             if a = ''..'' then clean_elems rooted es (''..'' # a # out')
             else clean_elems rooted es out')
      else clean_elems rooted es (e # out))"

definition Clean :: "path \<Rightarrow> path" where
  "Clean p =
     (let rooted = (case p of [] \<Rightarrow> False | c # _ \<Rightarrow> is_sep c);
          s = join_sep (clean_elems rooted (split_sep p) [])
      in if rooted then CHR ''/'' # s else if s = '''' then ''.'' else s)"

definition Dir :: "path \<Rightarrow> path" where
  "Dir p = Clean (fst (Split p))"

text \<open>\<^verbatim>\<open>Join\<close>: leading empty elements are ignored, the rest joined and cleaned.\<close>

definition Join :: "string list \<Rightarrow> path" where
  "Join elem =
     (case dropWhile (\<lambda>e. e = '''') elem of [] \<Rightarrow> '''' | es \<Rightarrow> Clean (join_sep es))"

definition hasMeta :: "string \<Rightarrow> bool" where
  "hasMeta p = (\<exists>c \<in> set p. c \<in> set [CHR ''*'', CHR ''?'', CHR ''['', CHR 0x5C])"

definition cleanGlobPath :: "path \<Rightarrow> path" where
  "cleanGlobPath p = (if p = '''' then ''.'' else if p = ''/'' then p else butlast p)"

subsection \<open>\<^verbatim>\<open>filepath.Match\<close>\<close>

text \<open>
  The errors of the calls modelled here: the system's error numbers, and
  \<^verbatim>\<open>filepath.ErrBadPattern\<close>.
\<close>

datatype errno = ENOENT | ENOTDIR | EEXIST | EISDIR | EACCES | EPERM | ErrBadPattern

text \<open>
  \<^verbatim>\<open>utf8.DecodeRuneInString\<close>: the rune at the head of a string and its width in bytes;
  for an encoding that is not valid UTF-8 the rune \<^verbatim>\<open>RuneError\<close> and the width 1, for the
  empty string \<^verbatim>\<open>RuneError\<close> and the width 0.
\<close>

definition RuneError :: nat where
  "RuneError = 65533"

definition byte_at :: "string \<Rightarrow> nat \<Rightarrow> nat" where
  "byte_at s i = of_char (s ! i)"

definition DecodeRuneInString :: "string \<Rightarrow> nat \<times> nat" where
  "DecodeRuneInString s =
     (if s = [] then (RuneError, 0)
      else
        (let b0 = byte_at s 0
         in if b0 < 128 then (b0, 1)
            else if b0 < 194 \<or> 244 < b0 then (RuneError, 1)
            else
              (let sz = (if b0 < 224 then 2 else if b0 < 240 then 3 else 4 :: nat);
                   lo = (if b0 = 224 then 160 else if b0 = 240 then 144 else 128 :: nat);
                   hi = (if b0 = 237 then 159 else if b0 = 244 then 143 else 191 :: nat)
               in if length s < sz then (RuneError, 1)
                  else if byte_at s 1 < lo \<or> hi < byte_at s 1 then (RuneError, 1)
                  else if sz = 2 then (b0 mod 32 * 64 + byte_at s 1 mod 64, 2)
                  else if byte_at s 2 < 128 \<or> 191 < byte_at s 2 then (RuneError, 1)
                  else if sz = 3 then
                    (b0 mod 16 * 4096 + byte_at s 1 mod 64 * 64 + byte_at s 2 mod 64, 3)
                  else if byte_at s 3 < 128 \<or> 191 < byte_at s 3 then (RuneError, 1)
                  else (b0 mod 8 * 262144 + byte_at s 1 mod 64 * 4096
                          + byte_at s 2 mod 64 * 64 + byte_at s 3 mod 64, 4))))"

lemma DecodeRuneInString_width: "s \<noteq> [] \<Longrightarrow> 0 < snd (DecodeRuneInString s)"
  by (simp add: DecodeRuneInString_def Let_def)

text \<open>
  \<^verbatim>\<open>getEsc\<close>: one possibly escaped character of a character class, and the rest of the
  chunk, which must not be empty.
\<close>

definition getEsc :: "string \<Rightarrow> errno + nat \<times> string" where
  "getEsc chunk =
     (if chunk = [] \<or> hd chunk = CHR ''-'' \<or> hd chunk = CHR '']'' then Inl ErrBadPattern
      else
        (let chunk1 = (if hd chunk = CHR 0x5C then tl chunk else chunk)
         in if chunk1 = [] then Inl ErrBadPattern
            else
              (let (r, n) = DecodeRuneInString chunk1;
                   nchunk = drop n chunk1
               in if r = RuneError \<and> n = 1 then Inl ErrBadPattern
                  else if nchunk = [] then Inl ErrBadPattern
                  else Inr (r, nchunk))))"

lemma getEsc_shorter: "getEsc chunk = Inr (r, nchunk) \<Longrightarrow> length nchunk < length chunk"
proof -
  assume a: "getEsc chunk = Inr (r, nchunk)"
  let ?c1 = "if hd chunk = CHR 0x5C then tl chunk else chunk"
  from a have c1: "?c1 \<noteq> []"
    by (auto simp: getEsc_def Let_def split: if_splits)
  from a have n: "nchunk = drop (snd (DecodeRuneInString ?c1)) ?c1"
    by (auto simp: getEsc_def Let_def case_prod_beta split: if_splits)
  have "length nchunk < length ?c1"
    unfolding n using DecodeRuneInString_width [OF c1] c1 by simp
  also have "\<dots> \<le> length chunk" by simp
  finally show ?thesis .
qed

text \<open>
  The ranges of a character class, from after the \<^verbatim>\<open>[\<close> (and the \<^verbatim>\<open>^\<close>) to the closing
  \<^verbatim>\<open>]\<close>: whether one of them holds the rune \<^verbatim>\<open>r\<close>, and the chunk after the class.
\<close>

function class_ranges :: "string \<Rightarrow> nat \<Rightarrow> bool \<Rightarrow> nat \<Rightarrow> errno + bool \<times> string" where
  "class_ranges chunk r match nrange =
     (if chunk \<noteq> [] \<and> hd chunk = CHR '']'' \<and> 0 < nrange then Inr (match, tl chunk)
      else
        (case getEsc chunk of
           Inl err \<Rightarrow> Inl err
         | Inr (lo, chunk1) \<Rightarrow>
             if hd chunk1 = CHR ''-'' then
               (case getEsc (tl chunk1) of
                  Inl err \<Rightarrow> Inl err
                | Inr (hi, chunk2) \<Rightarrow>
                    class_ranges chunk2 r (match \<or> (lo \<le> r \<and> r \<le> hi)) (nrange + 1))
             else class_ranges chunk1 r (match \<or> lo = r) (nrange + 1)))"
  by pat_completeness auto
termination
proof (relation "measure (\<lambda>(chunk, r, match, nrange). length chunk)", goal_cases)
  case 1
  show ?case by simp
next
  case (2 chunk r match nrange x lo chunk1 hi_pair hi chunk2)
  then have "length chunk1 < length chunk" "length chunk2 < length (tl chunk1)"
    by (auto dest: getEsc_shorter)
  then show ?case by simp
next
  case (3 chunk r match nrange x lo chunk1)
  then show ?case by (auto dest: getEsc_shorter)
qed

declare class_ranges.simps [simp del]

lemma class_ranges_shorter:
  "class_ranges chunk r match nrange = Inr (m, rest) \<Longrightarrow> length rest < length chunk"
proof (induction chunk r match nrange rule: class_ranges.induct)
  case (1 chunk r match nrange)
  show ?case
  proof (cases "chunk \<noteq> [] \<and> hd chunk = CHR '']'' \<and> 0 < nrange")
    case True
    then have "class_ranges chunk r match nrange = Inr (match, tl chunk)"
      by (rule trans [OF class_ranges.simps if_P])
    with "1.prems" True show ?thesis by auto
  next
    case False
    then have eq: "class_ranges chunk r match nrange =
        (case getEsc chunk of
           Inl err \<Rightarrow> Inl err
         | Inr (lo, chunk1) \<Rightarrow>
             if hd chunk1 = CHR ''-'' then
               (case getEsc (tl chunk1) of
                  Inl err \<Rightarrow> Inl err
                | Inr (hi, chunk2) \<Rightarrow>
                    class_ranges chunk2 r (match \<or> (lo \<le> r \<and> r \<le> hi)) (nrange + 1))
             else class_ranges chunk1 r (match \<or> lo = r) (nrange + 1))"
      by (rule trans [OF class_ranges.simps if_not_P])
    from "1.prems" obtain lo chunk1 where e1: "getEsc chunk = Inr (lo, chunk1)"
      unfolding eq by (auto split: sum.splits)
    then have l1: "length chunk1 < length chunk" by (rule getEsc_shorter)
    show ?thesis
    proof (cases "hd chunk1 = CHR ''-''")
      case dash: True
      from "1.prems" e1 dash obtain hi chunk2
        where e2: "getEsc (tl chunk1) = Inr (hi, chunk2)"
        unfolding eq by (auto split: sum.splits)
      then have l2: "length chunk2 < length (tl chunk1)" by (rule getEsc_shorter)
      from "1.prems" e1 dash e2
      have "class_ranges chunk2 r (match \<or> (lo \<le> r \<and> r \<le> hi)) (nrange + 1) = Inr (m, rest)"
        unfolding eq by simp
      with "1.IH"(1) [OF False e1 refl dash e2 refl] have "length rest < length chunk2"
        by simp
      with l1 l2 show ?thesis by simp
    next
      case nodash: False
      from "1.prems" e1 nodash
      have "class_ranges chunk1 r (match \<or> lo = r) (nrange + 1) = Inr (m, rest)"
        unfolding eq by simp
      with "1.IH"(2) [OF False e1 refl nodash] have "length rest < length chunk1"
        by simp
      with l1 show ?thesis by simp
    qed
  qed
qed

text \<open>
  \<^verbatim>\<open>matchChunk\<close>: whether the chunk (a pattern without a \<^verbatim>\<open>*\<close> outside a class) matches
  at the start of \<^verbatim>\<open>s\<close>, and the rest of \<^verbatim>\<open>s\<close>. Once the match has failed the chunk is
  still read to its end to find a malformed pattern, and \<^verbatim>\<open>s\<close> is read no more.
\<close>

function matchChunk_from :: "string \<Rightarrow> string \<Rightarrow> bool \<Rightarrow> errno + string \<times> bool" where
  "matchChunk_from chunk s failed =
     (if chunk = [] then (if failed then Inr ('''', False) else Inr (s, True))
      else
        (let failed1 = (failed \<or> s = [])
         in if hd chunk = CHR ''['' then
              (let (r, n) = (if failed1 then (0, 0) else DecodeRuneInString s);
                   s1 = drop n s;
                   negated = (tl chunk \<noteq> [] \<and> hd (tl chunk) = CHR ''^'');
                   chunk1 = (if negated then tl (tl chunk) else tl chunk)
               in case class_ranges chunk1 r False 0 of
                    Inl err \<Rightarrow> Inl err
                  | Inr (match, chunk2) \<Rightarrow>
                      matchChunk_from chunk2 s1 (failed1 \<or> match = negated))
            else if hd chunk = CHR ''?'' then
              matchChunk_from (tl chunk)
                (if failed1 then s else drop (snd (DecodeRuneInString s)) s)
                (failed1 \<or> hd s = CHR ''/'')
            else if hd chunk = CHR 0x5C \<and> tl chunk = [] then Inl ErrBadPattern
            else
              (let chunk1 = (if hd chunk = CHR 0x5C then tl chunk else chunk)
               in matchChunk_from (tl chunk1) (if failed1 then s else tl s)
                    (failed1 \<or> hd chunk1 \<noteq> hd s))))"
  by pat_completeness auto
termination
  apply (relation "measure (\<lambda>(chunk, s, failed). length chunk)")
  apply simp
  apply (auto dest!: class_ranges_shorter split: if_splits)
  done

declare matchChunk_from.simps [simp del]

definition matchChunk :: "string \<Rightarrow> string \<Rightarrow> errno + string \<times> bool" where
  "matchChunk chunk s = matchChunk_from chunk s False"

text \<open>
  \<^verbatim>\<open>scanChunk\<close>: whether the pattern starts with stars, the chunk after them up to the
  next \<^verbatim>\<open>*\<close> outside a character class, and the rest of the pattern.
\<close>

fun scan_end :: "string \<Rightarrow> bool \<Rightarrow> nat" where
  "scan_end [] inrange = 0"
| "scan_end (c # cs) inrange =
     (if c = CHR 0x5C then (case cs of [] \<Rightarrow> 1 | d # ds \<Rightarrow> 2 + scan_end ds inrange)
      else if c = CHR ''['' then 1 + scan_end cs True
      else if c = CHR '']'' then 1 + scan_end cs False
      else if c = CHR ''*'' \<and> \<not> inrange then 0
      else 1 + scan_end cs inrange)"

definition scanChunk :: "string \<Rightarrow> bool \<times> string \<times> string" where
  "scanChunk pattern =
     (let star = (pattern \<noteq> [] \<and> hd pattern = CHR ''*'');
          p = dropWhile (\<lambda>c. c = CHR ''*'') pattern;
          i = scan_end p False
      in (star, take i p, drop i p))"

lemma scan_end_pos: "p \<noteq> [] \<Longrightarrow> hd p \<noteq> CHR ''*'' \<Longrightarrow> 0 < scan_end p inrange"
  by (cases p) (auto split: list.splits)

lemma scanChunk_shorter:
  "pattern \<noteq> [] \<Longrightarrow> scanChunk pattern = (star, chunk, rest) \<Longrightarrow> length rest < length pattern"
proof -
  assume ne: "pattern \<noteq> []" and sc: "scanChunk pattern = (star, chunk, rest)"
  define p where "p = dropWhile (\<lambda>c. c = CHR ''*'') pattern"
  from sc have rest: "rest = drop (scan_end p False) p"
    by (simp add: scanChunk_def Let_def p_def)
  have le: "length p \<le> length pattern"
    unfolding p_def by (rule length_dropWhile_le)
  show ?thesis
  proof (cases "hd pattern = CHR ''*''")
    case True
    with ne have "length p < length pattern"
      unfolding p_def by (cases pattern) (auto intro: le_imp_less_Suc length_dropWhile_le)
    with rest show ?thesis by simp
  next
    case False
    with ne have pp: "p = pattern"
      unfolding p_def by (cases pattern) auto
    with ne False have "0 < scan_end p False" by (simp add: scan_end_pos)
    with rest pp ne show ?thesis by simp
  qed
qed

text \<open>
  The search of \<^verbatim>\<open>Match\<close> for a place where the chunk after a star matches: the star
  takes one more byte of the name at a time and never a separator; for the last chunk
  of the pattern the match has to use up the name.
\<close>

fun skip_search :: "string \<Rightarrow> bool \<Rightarrow> string \<Rightarrow> errno + string option" where
  "skip_search chunk final [] = Inr None"
| "skip_search chunk final (c # cs) =
     (if c = CHR ''/'' then Inr None
      else
        (case matchChunk chunk cs of
           Inl err \<Rightarrow> Inl err
         | Inr (t, ok) \<Rightarrow>
             if ok \<and> \<not> (final \<and> t \<noteq> []) then Inr (Some t)
             else skip_search chunk final cs))"

text \<open>The check of the rest of the pattern that \<^verbatim>\<open>Match\<close> makes before it answers false.\<close>

function check_rest :: "string \<Rightarrow> errno option" where
  "check_rest pattern =
     (if pattern = [] then None
      else
        (let (star, chunk, rest) = scanChunk pattern
         in case matchChunk chunk '''' of
              Inl err \<Rightarrow> Some err
            | Inr _ \<Rightarrow> check_rest rest))"
  by pat_completeness auto
termination
  by (relation "measure length") (auto dest: scanChunk_shorter [OF _ sym])

declare check_rest.simps [simp del]

function Match :: "string \<Rightarrow> string \<Rightarrow> errno + bool" where
  "Match pattern name =
     (if pattern = [] then Inr (name = [])
      else
        (let (star, chunk, rest) = scanChunk pattern
         in if star \<and> chunk = [] then Inr (CHR ''/'' \<notin> set name)
            else
              (case matchChunk chunk name of
                 Inl err \<Rightarrow> Inl err
               | Inr (t, ok) \<Rightarrow>
                   if ok \<and> (t = [] \<or> rest \<noteq> []) then Match rest t
                   else
                     (case (if star then skip_search chunk (rest = []) name else Inr None) of
                        Inl err \<Rightarrow> Inl err
                      | Inr (Some t1) \<Rightarrow> Match rest t1
                      | Inr None \<Rightarrow>
                          (case check_rest rest of
                             Some err \<Rightarrow> Inl err
                           | None \<Rightarrow> Inr False)))))"
  by pat_completeness auto
termination
  by (relation "measure (\<lambda>(pattern, name). length pattern)")
     (auto dest: scanChunk_shorter [OF _ sym])

declare Match.simps [simp del]

subsection \<open>Files, modes and the calls of package \<^verbatim>\<open>os\<close>\<close>

text \<open>
  A \<^verbatim>\<open>FileMode\<close> is Go's 32-bit mode word; only the nine permission bits are kept for
  a file. Isabelle has no octal numerals, so the modes of the source are spelled by
  their octal digits.
\<close>

type_synonym FileMode = "32 word"

definition octal :: "nat \<Rightarrow> nat \<Rightarrow> nat \<Rightarrow> FileMode" where
  "octal a b c = word_of_nat (a * 64 + b * 8 + c)"

definition ModePerm :: FileMode where
  "ModePerm = octal 7 7 7"

text \<open>
  A file or directory as the calls below see it: what \<^verbatim>\<open>Stat\<close> reports (\<^verbatim>\<open>IsDir()\<close>,
  \<^verbatim>\<open>Mode().Perm()\<close>), its content, and how the process stands to it: whether its
  user owns the file, and whether one of its groups is the file's group.
\<close>

record FileInfo =
  IsDir :: bool
  Perm :: FileMode
  Content :: "byte list"
  Owned :: bool
  InGroup :: bool

text \<open>
  The file system of a Unix host, as one process sees it. A file is known by the
  names of the directories that lead to it from the root, and its own name last; the
  root directory is the empty list. Besides the files, in the order of their creation,
  the state holds the process's umask, its working directory, and whether it runs as
  the superuser. Symbolic and hard links are not modelled.
\<close>

type_synonym key = "string list"

record filesystem =
  files :: "(key \<times> FileInfo) list"
  umask :: FileMode
  cwd :: key
  superuser :: bool

text \<open>An error value: a system error, or one wrapped by \<^verbatim>\<open>fmt.Errorf("...: %w", err)\<close>.\<close>

datatype go_error = Errno errno | Errorf string go_error

definition entry :: "filesystem \<Rightarrow> key \<Rightarrow> FileInfo option" where
  "entry fs k = map_of (files fs) k"

definition put :: "filesystem \<Rightarrow> key \<Rightarrow> FileInfo \<Rightarrow> filesystem" where
  "put fs k info = fs\<lparr>files := AList.update k info (files fs)\<rparr>"

text \<open>
  The permission check of the system: the superuser passes; for another user the
  owner's bits count on a file it owns, the group's bits on a file of one of its
  groups, the others' bits otherwise. The bit asked for is 4 to read, 2 to write, 1 to
  search a directory.
\<close>

definition permitted :: "filesystem \<Rightarrow> FileInfo \<Rightarrow> nat \<Rightarrow> bool" where
  "permitted fs info b =
     (superuser fs
      \<or> Perm info AND (if Owned info then octal b 0 0
                        else if InGroup info then octal 0 b 0
                        else octal 0 0 b) \<noteq> 0)"

definition may_read :: "filesystem \<Rightarrow> FileInfo \<Rightarrow> bool" where
  "may_read fs info = permitted fs info 4"

definition may_write :: "filesystem \<Rightarrow> FileInfo \<Rightarrow> bool" where
  "may_write fs info = permitted fs info 2"

definition may_search :: "filesystem \<Rightarrow> FileInfo \<Rightarrow> bool" where
  "may_search fs info = permitted fs info 1"

text \<open>
  Path resolution. The elements of the path are taken one by one from a starting
  directory; an empty element (two separators in a row, or one at an end of the path)
  is passed over. To take any other element the place reached must exist, be a
  directory, and be open to search by the process. The place named by the last element
  need not exist. The empty path names nothing; a path that starts with a separator is
  resolved from the root, any other from the working directory.
\<close>

fun walk :: "filesystem \<Rightarrow> key \<Rightarrow> string list \<Rightarrow> errno + key" where
  "walk fs cur [] = Inr cur"
| "walk fs cur (e # es) =
     (if e = '''' then walk fs cur es
      else
        (case entry fs cur of
           None \<Rightarrow> Inl ENOENT
         | Some d \<Rightarrow>
             if \<not> IsDir d then Inl ENOTDIR
             else if \<not> may_search fs d then Inl EACCES
             else walk fs (if e = ''.'' then cur
                           else if e = ''..'' then butlast cur
                           else cur @ [e]) es))"

definition resolve :: "filesystem \<Rightarrow> path \<Rightarrow> errno + key" where
  "resolve fs p =
     (if p = '''' then Inl ENOENT
      else walk fs (if is_sep (hd p) then [] else cwd fs) (split_sep p))"

text \<open>
  The existing file that a path names. A path that ends with a separator names
  only a directory.
\<close>

definition target :: "filesystem \<Rightarrow> path \<Rightarrow> errno + key \<times> FileInfo" where
  "target fs p =
     (case resolve fs p of
        Inl err \<Rightarrow> Inl err
      | Inr k \<Rightarrow>
          (case entry fs k of
             None \<Rightarrow> Inl ENOENT
           | Some info \<Rightarrow>
               if is_sep (last p) \<and> \<not> IsDir info then Inl ENOTDIR else Inr (k, info)))"

definition Stat :: "filesystem \<Rightarrow> path \<Rightarrow> errno + FileInfo" where
  "Stat fs p = (case target fs p of Inl err \<Rightarrow> Inl err | Inr (k, info) \<Rightarrow> Inr info)"

definition IsNotExist :: "errno \<Rightarrow> bool" where
  "IsNotExist e = (e = ENOENT)"

text \<open>
  \<^verbatim>\<open>Chmod\<close> sets the permission bits to exactly those given; the umask plays no part.
  Only the owner of a file, or the superuser, may change its mode.
\<close>

definition Chmod :: "filesystem \<Rightarrow> path \<Rightarrow> FileMode \<Rightarrow> errno option \<times> filesystem" where
  "Chmod fs p mode =
     (case target fs p of
        Inl err \<Rightarrow> (Some err, fs)
      | Inr (k, info) \<Rightarrow>
          if \<not> (superuser fs \<or> Owned info) then (Some EPERM, fs)
          else (None, put fs k (info\<lparr>Perm := mode AND ModePerm\<rparr>)))"

text \<open>
  A new file or directory is entered in its parent directory, which the process must
  be allowed to write. It gets the permission bits asked for less those of the umask
  (``before umask'', in the words of package os), and belongs to the process's user.
\<close>

definition create ::
  "filesystem \<Rightarrow> key \<Rightarrow> bool \<Rightarrow> FileMode \<Rightarrow> errno option \<times> filesystem" where
  "create fs k isdir mode =
     (if k = [] then (Some ENOENT, fs)
      else
        (case entry fs (butlast k) of
           None \<Rightarrow> (Some ENOENT, fs)
         | Some d \<Rightarrow>
             if \<not> IsDir d then (Some ENOTDIR, fs)
             else if \<not> may_write fs d then (Some EACCES, fs)
             else (None, put fs k
                     \<lparr>IsDir = isdir, Perm = mode AND ModePerm AND NOT (umask fs),
                      Content = [], Owned = True, InGroup = True\<rparr>)))"

definition Mkdir :: "filesystem \<Rightarrow> path \<Rightarrow> FileMode \<Rightarrow> errno option \<times> filesystem" where
  "Mkdir fs p mode =
     (case resolve fs p of
        Inl err \<Rightarrow> (Some err, fs)
      | Inr k \<Rightarrow>
          (case entry fs k of
             Some info \<Rightarrow> (Some EEXIST, fs)
           | None \<Rightarrow> create fs k True mode))"

text \<open>
  \<^verbatim>\<open>OpenFile(name, O_CREATE|O_APPEND|O_WRONLY, perm)\<close> followed by \<^verbatim>\<open>Close\<close>: an
  existing file is opened for appending and left as it is, a missing one is created
  empty. A path that ends with a separator cannot be opened in this way.
\<close>

definition OpenFile_append :: "filesystem \<Rightarrow> path \<Rightarrow> FileMode \<Rightarrow> errno option \<times> filesystem" where
  "OpenFile_append fs p mode =
     (case resolve fs p of
        Inl err \<Rightarrow> (Some err, fs)
      | Inr k \<Rightarrow>
          (case entry fs k of
             Some info \<Rightarrow>
               if IsDir info then (Some EISDIR, fs)
               else if is_sep (last p) then (Some ENOTDIR, fs)
               else if \<not> may_write fs info then (Some EACCES, fs)
               else (None, fs)
           | None \<Rightarrow>
               if is_sep (last p) then (Some EISDIR, fs)
               else create fs k False mode))"

text \<open>
  The parent that \<^verbatim>\<open>MkdirAll\<close> recurses on: the path without its trailing separators
  and its last element (the separator before that element is kept).
\<close>

definition parent_prefix :: "path \<Rightarrow> path" where
  "parent_prefix p = rev (dropWhile (\<lambda>c. \<not> is_sep c) (dropWhile is_sep (rev p)))"

lemma parent_prefix_shorter: "parent_prefix p \<noteq> [] \<Longrightarrow> length (parent_prefix p) < length p"
proof -
  assume ne: "parent_prefix p \<noteq> []"
  define q where "q = dropWhile is_sep (rev p)"
  have pp: "parent_prefix p = rev (dropWhile (\<lambda>c. \<not> is_sep c) q)"
    by (simp add: parent_prefix_def q_def)
  from ne pp obtain c q' where q: "q = c # q'"
    by (cases q) auto
  have "\<not> is_sep (hd q)"
    unfolding q_def by (rule hd_dropWhile) (use q q_def in auto)
  then have "dropWhile (\<lambda>c. \<not> is_sep c) q = dropWhile (\<lambda>c. \<not> is_sep c) q'"
    by (simp add: q)
  then have "length (parent_prefix p) = length (dropWhile (\<lambda>c. \<not> is_sep c) q')"
    by (simp add: pp)
  also have "\<dots> \<le> length q'" by (rule length_dropWhile_le)
  also have "\<dots> < length q" by (simp add: q)
  also have "\<dots> \<le> length (rev p)" unfolding q_def by (rule length_dropWhile_le)
  finally show ?thesis by simp
qed

function MkdirAll :: "filesystem \<Rightarrow> path \<Rightarrow> FileMode \<Rightarrow> errno option \<times> filesystem" where
  "MkdirAll fs p mode =
     (case Stat fs p of
        Inr dir \<Rightarrow> if IsDir dir then (None, fs) else (Some ENOTDIR, fs)
      | Inl _ \<Rightarrow>
          (case (if parent_prefix p \<noteq> [] then MkdirAll fs (parent_prefix p) mode
                 else (None, fs)) of
             (Some e, fs1) \<Rightarrow> (Some e, fs1)
           | (None, fs1) \<Rightarrow>
               (case Mkdir fs1 p mode of
                  (None, fs2) \<Rightarrow> (None, fs2)
                | (Some e, fs2) \<Rightarrow>
                    (case Stat fs2 p of
                       Inr dir \<Rightarrow> if IsDir dir then (None, fs2) else (Some e, fs2)
                     | Inl _ \<Rightarrow> (Some e, fs2)))))"
  by pat_completeness auto
termination
  by (relation "measure (\<lambda>(fs, p, mode). length p)") (auto simp: parent_prefix_shorter)

declare MkdirAll.simps [simp del]

subsection \<open>\<^verbatim>\<open>filepath.Glob\<close>\<close>

text \<open>
  The names in a directory, as \<^verbatim>\<open>Readdirnames\<close> followed by \<^verbatim>\<open>slices.Sort\<close> gives them.
\<close>

definition Readdirnames :: "filesystem \<Rightarrow> key \<Rightarrow> string list" where
  "Readdirnames fs d =
     sort (remdups (map last (filter (\<lambda>k. k \<noteq> [] \<and> butlast k = d) (map fst (files fs)))))"

text \<open>The loop of \<^verbatim>\<open>glob\<close> over the sorted names; an error of \<^verbatim>\<open>Match\<close> ends it.\<close>

fun glob_names ::
  "path \<Rightarrow> string \<Rightarrow> string list \<Rightarrow> path list \<Rightarrow> path list \<times> errno option" where
  "glob_names dir pattern [] m = (m, None)"
| "glob_names dir pattern (n # ns) m =
     (case Match pattern n of
        Inl err \<Rightarrow> (m, Some err)
      | Inr matched \<Rightarrow> glob_names dir pattern ns (if matched then m @ [Join [dir, n]] else m))"

text \<open>
  \<^verbatim>\<open>glob\<close>: the matches so far and, after them, the names in \<^verbatim>\<open>dir\<close> that match the
  pattern. A directory that cannot be examined, or opened for reading, adds nothing
  and is no error.
\<close>

definition glob :: "filesystem \<Rightarrow> path \<Rightarrow> string \<Rightarrow> path list \<Rightarrow> path list \<times> errno option" where
  "glob fs dir pattern matches =
     (case target fs dir of
        Inl _ \<Rightarrow> (matches, None)
      | Inr (k, fi) \<Rightarrow>
          if \<not> IsDir fi then (matches, None)
          else if \<not> may_read fs fi then (matches, None)
          else glob_names dir pattern (Readdirnames fs k) matches)"

fun glob_each ::
  "filesystem \<Rightarrow> path list \<Rightarrow> string \<Rightarrow> path list \<Rightarrow> path list \<times> errno option" where
  "glob_each fs [] file matches = (matches, None)"
| "glob_each fs (d # ds) file matches =
     (case glob fs d file matches of
        (m, Some err) \<Rightarrow> (m, Some err)
      | (m, None) \<Rightarrow> glob_each fs ds file m)"

lemma cleanGlobPath_shorter:
  "hasMeta (cleanGlobPath (fst (Split pattern))) \<Longrightarrow>
   length (cleanGlobPath (fst (Split pattern))) < length pattern"
proof -
  assume meta: "hasMeta (cleanGlobPath (fst (Split pattern)))"
  define d where "d = fst (Split pattern)"
  have le: "length d \<le> length pattern"
    unfolding d_def Split_def using length_dropWhile_le [of "\<lambda>c. \<not> is_sep c" "rev pattern"]
    by simp
  from meta have "d \<noteq> ''''" "d \<noteq> ''/''"
    by (auto simp: cleanGlobPath_def hasMeta_def d_def [symmetric])
  then have "length (cleanGlobPath d) < length d"
    by (simp add: cleanGlobPath_def)
  with le show ?thesis by (simp add: d_def)
qed

function globWithLimit :: "filesystem \<Rightarrow> string \<Rightarrow> nat \<Rightarrow> path list \<times> errno option" where
  "globWithLimit fs pattern depth =
     (if depth = 10000 then ([], Some ErrBadPattern)
      else
        (case Match pattern '''' of
           Inl err \<Rightarrow> ([], Some err)
         | Inr _ \<Rightarrow>
             if \<not> hasMeta pattern then
               (case Stat fs pattern of Inl _ \<Rightarrow> ([], None) | Inr _ \<Rightarrow> ([pattern], None))
             else
               (let dir = cleanGlobPath (fst (Split pattern));
                    file = snd (Split pattern)
                in if \<not> hasMeta dir then glob fs dir file []
                   else if dir = pattern then ([], Some ErrBadPattern)
                   else
                     (case globWithLimit fs dir (depth + 1) of
                        (m, Some err) \<Rightarrow> ([], Some err)
                      | (m, None) \<Rightarrow> glob_each fs m file []))))"
  by pat_completeness auto
termination
  by (relation "measure (\<lambda>(fs, pattern, depth). length pattern)")
     (auto simp: cleanGlobPath_shorter)

declare globWithLimit.simps [simp del]

definition Glob :: "filesystem \<Rightarrow> string \<Rightarrow> path list \<times> errno option" where
  "Glob fs pattern = globWithLimit fs pattern 0"

section \<open>The permission guardian\<close>

definition secureLogFile :: "filesystem \<Rightarrow> path \<Rightarrow> go_error option \<times> filesystem" where
  "secureLogFile fs logPath =
     (let logDir = Dir logPath
      in case MkdirAll fs logDir (octal 7 5 0) of
           (Some err, fs1) \<Rightarrow> (Some (Errorf ''failed to create log directory'' (Errno err)), fs1)
         | (None, fs1) \<Rightarrow>
             (case Stat fs1 logPath of
                Inl err \<Rightarrow>
                  if IsNotExist err then
                    (case OpenFile_append fs1 logPath (octal 6 4 0) of
                       (Some err, fs2) \<Rightarrow>
                         (Some (Errorf ''failed to create log file'' (Errno err)), fs2)
                     | (None, fs2) \<Rightarrow> (None, fs2))
                  else (Some (Errorf ''failed to check log file'' (Errno err)), fs1)
              | Inr fileInfo \<Rightarrow>
                  if Perm fileInfo \<noteq> octal 6 4 0 then
                    (case Chmod fs1 logPath (octal 6 4 0) of
                       (Some err, fs2) \<Rightarrow>
                         (Some (Errorf ''failed to set log file permissions'' (Errno err)), fs2)
                     | (None, fs2) \<Rightarrow> (None, fs2))
                  else (None, fs1)))"

text \<open>The loop of \<^verbatim>\<open>SecureRotatedLogs\<close> over the matches: every error is a return.\<close>

fun secure_matches :: "filesystem \<Rightarrow> path list \<Rightarrow> go_error option \<times> filesystem" where
  "secure_matches fs [] = (None, fs)"
| "secure_matches fs (match # rest) =
     (case Stat fs match of
        Inl err \<Rightarrow> (Some (Errorf (''failed to stat log file '' @ match) (Errno err)), fs)
      | Inr fileInfo \<Rightarrow>
          if Perm fileInfo \<noteq> octal 6 4 0 then
            (case Chmod fs match (octal 6 4 0) of
               (Some err, fs1) \<Rightarrow>
                 (Some (Errorf (''failed to chmod log file '' @ match) (Errno err)), fs1)
             | (None, fs1) \<Rightarrow> secure_matches fs1 rest)
          else secure_matches fs rest)"

definition log_pattern :: "path \<Rightarrow> string" where
  "log_pattern logPath =
     (let (dir, file) = Split logPath;
          ext = Ext file;
          base = take (length file - length ext) file
      in Join [dir, base @ ''*'' @ ext @ ''*''])"

definition SecureRotatedLogs :: "filesystem \<Rightarrow> path \<Rightarrow> go_error option \<times> filesystem" where
  "SecureRotatedLogs fs logPath =
     (case Glob fs (log_pattern logPath) of
        (matches, Some err) \<Rightarrow> (Some (Errorf ''failed to find log files'' (Errno err)), fs)
      | (matches, None) \<Rightarrow> secure_matches fs matches)"

section \<open>Notions used to state what the guardian does\<close>

text \<open>
  The entry a successful creation stores; two states of one process (the same umask,
  working directory and user); a file system that differs from an earlier one only by
  directories newly created with a given mode; and one that differs from an earlier
  one only by files whose permission bits have been set to 0640.
\<close>

definition new_entry :: "filesystem \<Rightarrow> bool \<Rightarrow> FileMode \<Rightarrow> FileInfo" where
  "new_entry fs isdir mode =
     \<lparr>IsDir = isdir, Perm = mode AND ModePerm AND NOT (umask fs), Content = [],
      Owned = True, InGroup = True\<rparr>"

definition same_process :: "filesystem \<Rightarrow> filesystem \<Rightarrow> bool" where
  "same_process fs fs' =
     (umask fs' = umask fs \<and> cwd fs' = cwd fs \<and> superuser fs' = superuser fs)"

definition grown_by_dirs :: "filesystem \<Rightarrow> FileMode \<Rightarrow> filesystem \<Rightarrow> bool" where
  "grown_by_dirs fs mode fs' =
     (same_process fs fs'
      \<and> (\<forall>k i. entry fs k = Some i \<longrightarrow> entry fs' k = Some i)
      \<and> (\<forall>k i. entry fs k = None \<longrightarrow> entry fs' k = Some i \<longrightarrow> i = new_entry fs True mode))"


text \<open>The permission bits that \<^verbatim>\<open>Stat\<close> reports for a path, if it reports any.\<close>

definition mode_at :: "filesystem \<Rightarrow> path \<Rightarrow> FileMode option" where
  "mode_at fs p = (case Stat fs p of Inl err \<Rightarrow> None | Inr info \<Rightarrow> Some (Perm info))"

section \<open>The specification's wording, for comparison with the code\<close>

text \<open>The fields of the Common Log Format line as the specification words them.\<close>

definition two_digits :: "nat \<Rightarrow> string" where
  "two_digits n = [digit (n div 10), digit (n mod 10)]"

definition four_digits :: "nat \<Rightarrow> string" where
  "four_digits n = [digit (n div 1000), digit (n div 100), digit (n div 10), digit n]"

definition month_abbrev :: "nat \<Rightarrow> string" where
  "month_abbrev m = [''Jan'', ''Feb'', ''Mar'', ''Apr'', ''May'', ''Jun'',
     ''Jul'', ''Aug'', ''Sep'', ''Oct'', ''Nov'', ''Dec''] ! (m - 1)"

definition zone_text :: "int \<Rightarrow> string" where
  "zone_text off =
     (if off \<le> - 60 then ''-'' else ''+'')
       @ two_digits (nat \<bar>off\<bar> div 3600) @ two_digits (nat \<bar>off\<bar> div 60 mod 60)"

text \<open>
  A wall-clock reading: a civil date of a four-digit year, a clock time, and an offset
  of less than a day.
\<close>

definition valid_time :: "time \<Rightarrow> bool" where
  "valid_time t =
     (0 \<le> year t \<and> year t \<le> 9999 \<and> 1 \<le> month t \<and> month t \<le> 12 \<and>
      1 \<le> day t \<and> day t \<le> 31 \<and> hour t < 24 \<and> minute t < 60 \<and> second t < 60 \<and>
      - 86400 < offset t \<and> offset t < 86400)"

definition common_line :: "Request \<Rightarrow> int \<Rightarrow> int \<Rightarrow> time \<Rightarrow> string" where
  \<open>common_line r st bytes t =
     RemoteAddr r @ '' - - ['' @ two_digits (day t) @ ''/'' @ month_abbrev (month t) @ ''/''
       @ four_digits (nat (year t)) @ '':'' @ two_digits (hour t) @ '':''
       @ two_digits (minute t) @ '':'' @ two_digits (second t) @ '' '' @ zone_text (offset t)
       @ ''] "'' @ Method r @ '' '' @ RequestURI r @ '' '' @ Proto r @ ''" ''
       @ itoa st @ '' '' @ itoa bytes\<close>

definition header_or_dash :: "(string \<rightharpoonup> string list) \<Rightarrow> string \<Rightarrow> string" where
  "header_or_dash h key =
     (case h key of
        None \<Rightarrow> ''-''
      | Some vs \<Rightarrow> if vs = [] \<or> hd vs = '''' then ''-'' else hd vs)"

text \<open>The status a handler's calls leave recorded: that of the last \<^verbatim>\<open>WriteHeader\<close>.\<close>

fun last_status :: "go_int \<Rightarrow> call list \<Rightarrow> go_int" where
  "last_status st [] = st"
| "last_status st (CallWriteHeader st' # cs) = last_status st' cs"
| "last_status st (CallWrite b # cs) = last_status st cs"

fun is_WriteHeader :: "call \<Rightarrow> bool" where
  "is_WriteHeader (CallWriteHeader st) = True"
| "is_WriteHeader (CallWrite b) = False"

text \<open>The bytes the underlying writer accepted, summed over the results of the writes.\<close>

fun accepted :: "result list \<Rightarrow> int" where
  "accepted [] = 0"
| "accepted (HeaderWritten # rs) = accepted rs"
| "accepted (Written n err # rs) = sint n + accepted rs"

text \<open>
  The status the specification says is recorded: that of the first \<^verbatim>\<open>WriteHeader\<close>, later
  ones changing nothing.
\<close>

fun first_status :: "go_int \<Rightarrow> call list \<Rightarrow> go_int" where
  "first_status st [] = st"
| "first_status st (CallWriteHeader st' # cs) = st'"
| "first_status st (CallWrite b # cs) = first_status st cs"

text \<open>The wrapper as the middleware finds it when the handler's calls have been made.\<close>

definition observed ::
  "'u ResponseWriter_impl \<Rightarrow> 'u \<Rightarrow> call list \<Rightarrow> 'u responseWrapper" where
  "observed I w calls = snd (run_calls I \<lparr>ResponseWriter = w, status = 200, size = 0\<rparr> calls)"

section \<open>Example inputs\<close>

definition hello_request :: Request where
  "hello_request =
     \<lparr>RemoteAddr = ''1.2.3.4'', Method = ''GET'', RequestURI = ''/api/hello'',
      Proto = ''HTTP/1.1'', Header = Map.empty\<rparr>"

definition hello_start :: time where
  "hello_start =
     \<lparr>year = 2023, month = 10, day = 10, hour = 13, minute = 55, second = 36, offset = 0\<rparr>"

definition hello_response :: "unit responseWrapper" where
  "hello_response = \<lparr>ResponseWriter = (), status = 200, size = 27\<rparr>"

definition browser_request :: Request where
  "browser_request =
     \<lparr>RemoteAddr = ''10.0.0.7:51234'', Method = ''POST'', RequestURI = ''/login?next=%2F'',
      Proto = ''HTTP/2.0'',
      Header = [''Referer'' \<mapsto> [''https://example.org/''], ''User-Agent'' \<mapsto> ['''']]\<rparr>"

definition india_morning :: time where
  "india_morning =
     \<lparr>year = 2024, month = 3, day = 5, hour = 7, minute = 8, second = 9, offset = 19800\<rparr>"

definition newfoundland_evening :: time where
  "newfoundland_evening =
     \<lparr>year = 1999, month = 12, day = 31, hour = 23, minute = 59, second = 59,
      offset = - 12600\<rparr>"

definition failed_response :: "unit responseWrapper" where
  "failed_response = \<lparr>ResponseWriter = (), status = 503, size = 0\<rparr>"

text \<open>
  A writer that records what it is given and accepts at most four bytes of a write,
  reporting a short write when it was handed more.
\<close>

record recorder =
  headers_seen :: "go_int list"
  bytes_seen :: "byte list"

definition short_writer :: "recorder ResponseWriter_impl" where
  "short_writer =
     \<lparr>impl_Write = (\<lambda>u b.
         ((word_of_nat (min 4 (length b)),
           if 4 < length b then Some ''short write'' else None),
          u\<lparr>bytes_seen := bytes_seen u @ take 4 b\<rparr>)),
      impl_WriteHeader = (\<lambda>u st. u\<lparr>headers_seen := headers_seen u @ [st]\<rparr>)\<rparr>"

definition fresh_recorder :: recorder where
  "fresh_recorder = \<lparr>headers_seen = [], bytes_seen = []\<rparr>"

definition fresh_wrapper :: "recorder responseWrapper" where
  "fresh_wrapper = \<lparr>ResponseWriter = fresh_recorder, status = 200, size = 0\<rparr>"

definition hello_body :: "byte list" where
  "hello_body = [104, 101, 108, 108, 111, 10]"

text \<open>Handlers: one that writes a body and returns, one that panics after writing.\<close>

definition hello_handler :: handler where
  "hello_handler r = ([CallWrite hello_body, CallWrite [33, 10]], Returns)"

definition panicking_handler :: handler where
  "panicking_handler r = ([CallWriteHeader 500, CallWrite hello_body], Panics)"

text \<open>
  File systems: entries by octal mode, ownership and content. The process is not the
  superuser and works in the root directory.
\<close>

definition dir_entry :: "nat \<Rightarrow> nat \<Rightarrow> nat \<Rightarrow> bool \<Rightarrow> FileInfo" where
  "dir_entry a b c own =
     \<lparr>IsDir = True, Perm = octal a b c, Content = [], Owned = own, InGroup = own\<rparr>"

definition file_entry :: "nat \<Rightarrow> nat \<Rightarrow> nat \<Rightarrow> bool \<Rightarrow> byte list \<Rightarrow> FileInfo" where
  "file_entry a b c own bytes =
     \<lparr>IsDir = False, Perm = octal a b c, Content = bytes, Owned = own, InGroup = own\<rparr>"

text \<open>A log directory that has no \<^verbatim>\<open>apache2\<close> subdirectory yet, under the umask 022.\<close>

definition bare_log_dir :: filesystem where
  "bare_log_dir =
     \<lparr>files = [([], dir_entry 7 5 5 False), ([''var''], dir_entry 7 5 5 False),
               ([''var'', ''log''], dir_entry 7 5 5 True)],
      umask = octal 0 2 2, cwd = [], superuser = False\<rparr>"

text \<open>The same directory for a process that runs under the umask 077.\<close>

definition strict_umask_dir :: filesystem where
  "strict_umask_dir = bare_log_dir\<lparr>umask := octal 0 7 7\<rparr>"

text \<open>
  A live log at mode 0644 with two rotated siblings, one at 0600 and a compressed one
  at 0640, beside a log of another name.
\<close>

definition rotated_logs :: filesystem where
  "rotated_logs =
     \<lparr>files = [([], dir_entry 7 5 5 False), ([''var''], dir_entry 7 5 5 False),
               ([''var'', ''log''], dir_entry 7 5 5 True),
               ([''var'', ''log'', ''apache2''], dir_entry 7 5 0 True),
               ([''var'', ''log'', ''apache2'', ''access.log''],
                file_entry 6 4 4 True [71, 69, 84]),
               ([''var'', ''log'', ''apache2'', ''access-2023-10-10T13-55-36.000.log''],
                file_entry 6 0 0 True [80, 85, 84]),
               ([''var'', ''log'', ''apache2'', ''access-2023-10-09T13-55-36.000.log.gz''],
                file_entry 6 4 0 True [31, 139]),
               ([''var'', ''log'', ''apache2'', ''error.log''], file_entry 6 4 4 True [33])],
      umask = octal 0 2 2, cwd = [], superuser = False\<rparr>"

text \<open>
  A rotated sibling that belongs to another user (its mode cannot be changed), sorted
  between a sibling at 0600 and the live log at 0644.
\<close>

definition foreign_sibling :: filesystem where
  "foreign_sibling =
     \<lparr>files = [([], dir_entry 7 5 5 False), ([''var''], dir_entry 7 5 5 False),
               ([''var'', ''log''], dir_entry 7 5 5 True),
               ([''var'', ''log'', ''apache2''], dir_entry 7 5 0 True),
               ([''var'', ''log'', ''apache2'', ''access.log''],
                file_entry 6 4 4 True [71, 69, 84]),
               ([''var'', ''log'', ''apache2'', ''access-2023-10-10T13-55-36.000.log''],
                file_entry 6 4 4 False [80, 85, 84]),
               ([''var'', ''log'', ''apache2'', ''access-2023-10-09T13-55-36.000.log.gz''],
                file_entry 6 0 0 True [31, 139])],
      umask = octal 0 2 2, cwd = [], superuser = False\<rparr>"




text \<open>
  A live log in a directory of another user that the process may not search (mode
  0700), and the same for a process that works in the log directory of
  \<^verbatim>\<open>rotated_logs\<close>.
\<close>

definition closed_logs :: filesystem where
  "closed_logs =
     \<lparr>files = [([], dir_entry 7 5 5 False), ([''srv''], dir_entry 7 0 0 False),
               ([''srv'', ''app.log''], file_entry 6 4 4 True [97])],
      umask = octal 0 2 2, cwd = [], superuser = False\<rparr>"

definition in_log_dir :: filesystem where
  "in_log_dir = rotated_logs\<lparr>cwd := [''var'', ''log'', ''apache2'']\<rparr>"

section \<open>The formatter\<close>

lemma has_prefix_Cons [simp]:
  "has_prefix (p # ps) (c # l) = (p = c \<and> has_prefix ps l)"
  "has_prefix [] l = True"
  "has_prefix (p # ps) [] = False"
  by (auto simp: has_prefix_def)

lemma digit_0: "digit 0 = CHR ''0''"
  by (simp add: digit_def)

lemma digit_mod: "digit (n mod 10) = digit n"
  by (simp add: digit_def)

lemma utoa_small: "n < 10 \<Longrightarrow> utoa n = [digit n]"
  by (simp add: utoa.simps)

lemma utoa_step: "10 \<le> n \<Longrightarrow> utoa n = utoa (n div 10) @ [digit n]"
  by (subst utoa.simps) (simp add: digit_mod)

lemma utoa_100: "n < 100 \<Longrightarrow> replicate (2 - length (utoa n)) CHR ''0'' @ utoa n = two_digits n"
proof (cases "n < 10")
  case True
  then show ?thesis by (simp add: utoa_small two_digits_def digit_0 digit_mod)
next
  case False
  assume "n < 100"
  with False have "n div 10 < 10" by simp
  with False show ?thesis by (simp add: utoa_step utoa_small two_digits_def digit_mod)
qed

lemma appendInt_2: "n < 100 \<Longrightarrow> appendInt (int n) 2 = two_digits n"
  by (simp add: appendInt_def utoa_100)

lemma utoa_10000:
  assumes "n < 10000"
  shows "replicate (4 - length (utoa n)) CHR ''0'' @ utoa n = four_digits n"
proof -
  consider "n < 10" | "10 \<le> n" "n < 100" | "100 \<le> n" "n < 1000" | "1000 \<le> n" "n < 10000"
    using assms by linarith
  then show ?thesis
  proof cases
    case 1
    then show ?thesis by (simp add: utoa_small four_digits_def digit_0 numeral_3_eq_3)
  next
    case 2
    then have "n div 10 < 10" by simp
    with 2 show ?thesis by (simp add: utoa_step utoa_small four_digits_def digit_0 numeral_2_eq_2)
  next
    case 3
    then have a: "10 \<le> n" "10 \<le> n div 10" "n div 10 div 10 < 10" by simp_all
    then show ?thesis
      using 3 by (simp add: utoa_step utoa_small four_digits_def digit_0 div_mult2_eq [symmetric])
  next
    case 4
    then have a: "10 \<le> n" "10 \<le> n div 10" "10 \<le> n div 10 div 10" "n div 10 div 10 div 10 < 10"
      by simp_all
    then show ?thesis
      using 4 by (simp add: utoa_step utoa_small four_digits_def div_mult2_eq [symmetric])
  qed
qed

lemma appendInt_4: "0 \<le> y \<Longrightarrow> y \<le> 9999 \<Longrightarrow> appendInt y 4 = four_digits (nat y)"
  by (simp add: appendInt_def utoa_10000)

lemma month_take3:
  assumes "1 \<le> m" "m \<le> 12"
  shows "take 3 (Month_String m) = month_abbrev m"
proof -
  from assms have "m = 1 \<or> m = 2 \<or> m = 3 \<or> m = 4 \<or> m = 5 \<or> m = 6 \<or> m = 7 \<or> m = 8
      \<or> m = 9 \<or> m = 10 \<or> m = 11 \<or> m = 12"
    by arith
  then show ?thesis
    by (elim disjE) (simp_all add: Month_String_def longMonthNames_def month_abbrev_def)
qed

lemma quo_60_abs: "\<bar>quo off 60\<bar> = int (nat \<bar>off\<bar> div 60)"
proof -
  have "\<bar>quo off 60\<bar> = \<bar>off\<bar> div 60"
    by (cases "off = 0") (simp_all add: quo_def abs_mult abs_sgn_eq)
  also have "\<dots> = int (nat \<bar>off\<bar> div 60)"
    by (simp add: zdiv_int)
  finally show ?thesis .
qed

lemma quo_60_neg: "(quo off 60 < 0) = (off \<le> - 60)"
proof (cases "off < 0")
  case True
  then have "quo off 60 = - (\<bar>off\<bar> div 60)" by (simp add: quo_def)
  moreover have "(0 < \<bar>off\<bar> div 60) = (60 \<le> \<bar>off\<bar>)"
    by (simp add: pos_imp_zdiv_pos_iff)
  ultimately show ?thesis using True by linarith
next
  case False
  then have "0 \<le> quo off 60" by (simp add: quo_def sgn_if pos_imp_zdiv_nonneg_iff)
  with False show ?thesis by simp
qed

lemma appendZone_unfold:
  "appendZone stdNumTZ off =
     (if quo off 60 < 0 then ''-'' else ''+'')
       @ appendInt (\<bar>quo off 60\<bar> div 60) 2 @ appendInt (\<bar>quo off 60\<bar> mod 60) 2"
  by (simp add: appendZone_def Let_def abs_if)

lemma appendZone_numTZ:
  assumes "- 86400 < off" "off < 86400"
  shows "appendZone stdNumTZ off = zone_text off"
proof -
  let ?a = "nat \<bar>off\<bar>"
  have b: "?a div 3600 < 100" "?a div 60 mod 60 < 100" using assms by auto
  have e1: "int (?a div 60) div 60 = int (?a div 3600)"
    by (simp add: zdiv_int [symmetric] div_mult2_eq [symmetric] del: of_nat_div)
  have e2: "int (?a div 60) mod 60 = int (?a div 60 mod 60)"
    by (simp add: zmod_int)
  show ?thesis
    unfolding appendZone_unfold quo_60_abs quo_60_neg e1 e2 zone_text_def
    using b by (simp only: appendInt_2)
qed

lemma Format_apache:
  "Format t ''[02/Jan/2006:15:04:05 -0700]'' =
     ''['' @ appendInt (int (day t)) 2 @ ''/'' @ take 3 (Month_String (month t)) @ ''/''
       @ appendInt (year t) 4 @ '':'' @ appendInt (int (hour t)) 2 @ '':''
       @ appendInt (int (minute t)) 2 @ '':'' @ appendInt (int (second t)) 2 @ '' ''
       @ appendZone stdNumTZ (offset t) @ '']''"
  by (simp add: Format_def stdChunkAt_def startsWithLowerCase_def appendStd_def)

lemma Sprintf_common:
  \<open>Sprintf ''%s - - %s "%s %s %s" %d %d'' [S a, S b, S c, S d, S e, D i, D j] =
     a @ '' - - '' @ b @ '' "'' @ c @ '' '' @ d @ '' '' @ e @ ''" '' @ itoa i @ '' '' @ itoa j\<close>
  by simp

lemma Sprintf_combined:
  \<open>Sprintf ''%s "%s" "%s"'' [S a, S b, S c] = a @ '' "'' @ b @ ''" "'' @ c @ ''"''\<close>
  by simp

lemma formats_differ: "CommonLogFormat \<noteq> CombinedLogFormat"
  by (simp add: CommonLogFormat_def CombinedLogFormat_def)

lemma formatLogEntry_not_combined:
  \<open>format \<noteq> CombinedLogFormat \<Longrightarrow>
   formatLogEntry r w t format =
     RemoteAddr r @ '' - - '' @ Format t ''[02/Jan/2006:15:04:05 -0700]'' @ '' "'' @ Method r
       @ '' '' @ RequestURI r @ '' '' @ Proto r @ ''" '' @ itoa (sint (status w)) @ '' ''
       @ itoa (sint (size w))\<close>
  unfolding formatLogEntry_def Let_def Sprintf_common by simp

lemma formatLogEntry_combined:
  \<open>formatLogEntry r w t CombinedLogFormat =
     formatLogEntry r w t CommonLogFormat @ '' "''
       @ (if Header_Get (Header r) ''Referer'' = '''' then ''-''
          else Header_Get (Header r) ''Referer'')
       @ ''" "''
       @ (if Header_Get (Header r) ''User-Agent'' = '''' then ''-''
          else Header_Get (Header r) ''User-Agent'')
       @ ''"''\<close>
  unfolding formatLogEntry_def Let_def Sprintf_common Sprintf_combined
  using formats_differ by simp

lemma Header_Get_or_dash:
  "(if Header_Get h key = '''' then ''-'' else Header_Get h key) = header_or_dash h key"
  by (auto simp: Header_Get_def header_or_dash_def split: option.splits list.splits)

lemmas evals = common_line_def browser_request_def failed_response_def india_morning_def
  newfoundland_evening_def hello_request_def hello_response_def hello_start_def
  two_digits_def four_digits_def month_abbrev_def zone_text_def digit_def itoa_def
  utoa_step utoa_small formatLogEntry_not_combined [OF formats_differ] Format_apache
  appendInt_def appendZone_unfold quo_def Month_String_def longMonthNames_def

text \<open>
  C1. With the Common format the formatter's output is the line
  \<^verbatim>\<open><remote-addr> - - [<day>/<Mon>/<year>:<HH>:<MM>:<SS> <offset>] "<method> <target> <protocol>" <status> <bytes>\<close>
  for every request, every recorded status and byte count and every wall-clock start
  time: the day and the clock fields are two digits each, the year four, the offset a
  sign and four digits. For the request GET /api/hello HTTP/1.1 from 1.2.3.4, answered
  with status 200 and 27 bytes, started on 10 Oct 2023 at 13:55:36 UTC, it is the line
  of the specification's example.
\<close>

theorem common_format_line:
  \<open>(valid_time start \<longrightarrow>
      formatLogEntry r wrapper start CommonLogFormat =
        common_line r (sint (status wrapper)) (sint (size wrapper)) start)
   \<and> length (two_digits n) = 2 \<and> length (four_digits n) = 4 \<and> length (zone_text off) = 5
   \<and> formatLogEntry hello_request hello_response hello_start CommonLogFormat =
        ''1.2.3.4 - - [10/Oct/2023:13:55:36 +0000] "GET /api/hello HTTP/1.1" 200 27''\<close>
proof -
  have general: "formatLogEntry r wrapper start CommonLogFormat =
      common_line r (sint (status wrapper)) (sint (size wrapper)) start"
    if v: "valid_time start"
  proof -
    from v have f: "day start < 100" "hour start < 100" "minute start < 100"
      "second start < 100" "1 \<le> month start" "month start \<le> 12"
      "0 \<le> year start" "year start \<le> 9999" "- 86400 < offset start" "offset start < 86400"
      by (simp_all add: valid_time_def)
    show ?thesis
      unfolding formatLogEntry_not_combined [OF formats_differ] Format_apache common_line_def
      using f by (simp add: appendInt_2 appendInt_4 month_take3 appendZone_numTZ)
  qed
  have example: \<open>formatLogEntry hello_request hello_response hello_start CommonLogFormat =
      ''1.2.3.4 - - [10/Oct/2023:13:55:36 +0000] "GET /api/hello HTTP/1.1" 200 27''\<close>
    by (simp add: evals)
  show ?thesis
    using general example by (simp add: two_digits_def four_digits_def zone_text_def)
qed

theorem common_format_line_witness:
  \<open>valid_time india_morning
   \<and> formatLogEntry browser_request failed_response india_morning CommonLogFormat =
       ''10.0.0.7:51234 - - [05/Mar/2024:07:08:09 +0530] "POST /login?next=%2F HTTP/2.0" 503 0''\<close>
proof -
  have v: "valid_time india_morning"
    by (simp add: valid_time_def india_morning_def)
  have "formatLogEntry browser_request failed_response india_morning CommonLogFormat =
      common_line browser_request (sint (status failed_response))
        (sint (size failed_response)) india_morning"
    using common_format_line [of india_morning browser_request failed_response] v by blast
  also have \<open>\<dots> =
      ''10.0.0.7:51234 - - [05/Mar/2024:07:08:09 +0530] "POST /login?next=%2F HTTP/2.0" 503 0''\<close>
    by (simp add: evals)
  finally show ?thesis using v by simp
qed

text \<open>
  C5. With the Combined format the output is the Common line followed by two more
  fields in double quotes, the Referer header's value and then the User-Agent header's
  value; a header that is missing or empty is written as \<^verbatim>\<open>-\<close>, so neither field is
  ever an empty pair of quotes, and with both headers absent the line ends in
  \<^verbatim>\<open>"-" "-"\<close>.
\<close>

theorem combined_format_line:
  \<open>formatLogEntry r wrapper start CombinedLogFormat =
     formatLogEntry r wrapper start CommonLogFormat
       @ '' "'' @ header_or_dash (Header r) ''Referer''
       @ ''" "'' @ header_or_dash (Header r) ''User-Agent'' @ ''"''
   \<and> header_or_dash h key \<noteq> ''''
   \<and> (h key = None \<or> h key = Some [] \<or> (\<exists>vs. h key = Some ('''' # vs))
        \<longrightarrow> header_or_dash h key = ''-'')
   \<and> (Header r ''Referer'' = None \<and> Header r ''User-Agent'' = None \<longrightarrow>
        formatLogEntry r wrapper start CombinedLogFormat =
          formatLogEntry r wrapper start CommonLogFormat @ '' "-" "-"'')\<close>
proof -
  have line: \<open>formatLogEntry r wrapper start CombinedLogFormat =
     formatLogEntry r wrapper start CommonLogFormat
       @ '' "'' @ header_or_dash (Header r) ''Referer''
       @ ''" "'' @ header_or_dash (Header r) ''User-Agent'' @ ''"''\<close>
    unfolding formatLogEntry_combined Header_Get_or_dash ..
  have filled: "header_or_dash h key \<noteq> ''''"
    by (auto simp: header_or_dash_def split: option.splits)
  have dash: "header_or_dash h key = ''-''"
    if "h key = None \<or> h key = Some [] \<or> (\<exists>vs. h key = Some ('''' # vs))"
    using that by (auto simp: header_or_dash_def)
  have absent: \<open>formatLogEntry r wrapper start CombinedLogFormat =
      formatLogEntry r wrapper start CommonLogFormat @ '' "-" "-"''\<close>
    if "Header r ''Referer'' = None \<and> Header r ''User-Agent'' = None"
    unfolding line using that by (simp add: header_or_dash_def)
  show ?thesis using line filled dash absent by blast
qed

theorem combined_format_line_witness:
  \<open>Header hello_request ''Referer'' = None \<and> Header hello_request ''User-Agent'' = None
   \<and> formatLogEntry hello_request hello_response hello_start CombinedLogFormat =
       ''1.2.3.4 - - [10/Oct/2023:13:55:36 +0000] "GET /api/hello HTTP/1.1" 200 27 "-" "-"''
   \<and> formatLogEntry browser_request failed_response newfoundland_evening CombinedLogFormat =
       ''10.0.0.7:51234 - - [31/Dec/1999:23:59:59 -0330] "POST /login?next=%2F HTTP/2.0" 503 0 "https://example.org/" "-"''\<close>
proof -
  have none: "Header hello_request ''Referer'' = None \<and> Header hello_request ''User-Agent'' = None"
    by (simp add: hello_request_def)
  have common: \<open>formatLogEntry hello_request hello_response hello_start CommonLogFormat =
      ''1.2.3.4 - - [10/Oct/2023:13:55:36 +0000] "GET /api/hello HTTP/1.1" 200 27''\<close>
    by (simp add: evals)
  have first: \<open>formatLogEntry hello_request hello_response hello_start CombinedLogFormat =
      formatLogEntry hello_request hello_response hello_start CommonLogFormat @ '' "-" "-"''\<close>
    using combined_format_line [of hello_request hello_response hello_start] none by blast
  have common2: \<open>formatLogEntry browser_request failed_response newfoundland_evening
      CommonLogFormat =
      ''10.0.0.7:51234 - - [31/Dec/1999:23:59:59 -0330] "POST /login?next=%2F HTTP/2.0" 503 0''\<close>
    by (simp add: evals)
  have fields: "header_or_dash (Header browser_request) ''Referer'' = ''https://example.org/''"
    "header_or_dash (Header browser_request) ''User-Agent'' = ''-''"
    by (simp_all add: header_or_dash_def browser_request_def)
  have second: \<open>formatLogEntry browser_request failed_response newfoundland_evening
      CombinedLogFormat =
      formatLogEntry browser_request failed_response newfoundland_evening CommonLogFormat
        @ '' "'' @ header_or_dash (Header browser_request) ''Referer''
        @ ''" "'' @ header_or_dash (Header browser_request) ''User-Agent'' @ ''"''\<close>
    using combined_format_line [of browser_request failed_response newfoundland_evening]
    by blast
  show ?thesis
    using none first second unfolding common common2 fields by simp
qed

text \<open>
  C9. The format is an open string: every value other than \<^verbatim>\<open>combined\<close>, the empty
  string and any unknown value included, gives the Common line, and only \<^verbatim>\<open>combined\<close>
  gives the longer Combined line; no value gives an empty line (the formatter has no
  error result).
\<close>

theorem other_formats_are_common:
  "(format \<noteq> ''combined'' \<longrightarrow>
      formatLogEntry r wrapper start format = formatLogEntry r wrapper start CommonLogFormat)
   \<and> formatLogEntry r wrapper start ''combined''
        \<noteq> formatLogEntry r wrapper start CommonLogFormat
   \<and> formatLogEntry r wrapper start format \<noteq> ''''"
proof -
  have c: "CombinedLogFormat = ''combined''" by (simp add: CombinedLogFormat_def)
  have same: "formatLogEntry r wrapper start format = formatLogEntry r wrapper start CommonLogFormat"
    if "format \<noteq> ''combined''"
    using that formats_differ by (simp add: formatLogEntry_not_combined c)
  have longer: "formatLogEntry r wrapper start ''combined''
      \<noteq> formatLogEntry r wrapper start CommonLogFormat"
    using formatLogEntry_combined [of r wrapper start] by (simp add: c)
  have common_filled: "formatLogEntry r wrapper start CommonLogFormat \<noteq> ''''"
    by (simp add: formatLogEntry_not_combined [OF formats_differ])
  have filled: "formatLogEntry r wrapper start format \<noteq> ''''"
  proof (cases "format = ''combined''")
    case True
    then show ?thesis using formatLogEntry_combined [of r wrapper start] by (simp add: c)
  next
    case False
    then show ?thesis using same common_filled by simp
  qed
  show ?thesis using same longer filled by blast
qed

theorem other_formats_are_common_witness:
  \<open>'''' \<noteq> ''combined'' \<and> ''Combined'' \<noteq> ''combined''
   \<and> formatLogEntry hello_request hello_response hello_start '''' =
       ''1.2.3.4 - - [10/Oct/2023:13:55:36 +0000] "GET /api/hello HTTP/1.1" 200 27''
   \<and> formatLogEntry hello_request hello_response hello_start ''Combined'' =
       ''1.2.3.4 - - [10/Oct/2023:13:55:36 +0000] "GET /api/hello HTTP/1.1" 200 27''\<close>
proof -
  have common: \<open>formatLogEntry hello_request hello_response hello_start CommonLogFormat =
      ''1.2.3.4 - - [10/Oct/2023:13:55:36 +0000] "GET /api/hello HTTP/1.1" 200 27''\<close>
    by (simp add: evals)
  have a: "formatLogEntry hello_request hello_response hello_start '''' =
      formatLogEntry hello_request hello_response hello_start CommonLogFormat"
    using other_formats_are_common [of "''''" hello_request hello_response hello_start]
    by simp
  have b: "formatLogEntry hello_request hello_response hello_start ''Combined'' =
      formatLogEntry hello_request hello_response hello_start CommonLogFormat"
    using other_formats_are_common [of "''Combined''" hello_request hello_response hello_start]
    by simp
  show ?thesis using a b common by simp
qed

section \<open>The response wrapper and the middleware\<close>

lemma Write_forwards:
  "Write I rw b =
     (fst (impl_Write I (ResponseWriter rw) b),
      rw\<lparr>ResponseWriter := snd (impl_Write I (ResponseWriter rw) b),
         size := size rw + fst (fst (impl_Write I (ResponseWriter rw) b))\<rparr>)"
  by (simp add: Write_def Let_def case_prod_beta)

lemma run_calls_direct:
  "direct_calls I (ResponseWriter rw) calls =
     (fst (run_calls I rw calls), ResponseWriter (snd (run_calls I rw calls)))"
proof (induction calls arbitrary: rw)
  case Nil
  then show ?case by simp
next
  case (Cons c cs)
  show ?case
  proof (cases c)
    case (CallWriteHeader st)
    then show ?thesis
      using Cons [of "WriteHeader I rw st"]
      by (simp add: WriteHeader_def Let_def case_prod_beta)
  next
    case (CallWrite b)
    then show ?thesis
      using Cons [of "snd (Write I rw b)"]
      by (simp add: Write_forwards Let_def case_prod_beta)
  qed
qed

lemma run_calls_size:
  "size (snd (run_calls I rw calls)) = size rw + word_of_int (accepted (fst (run_calls I rw calls)))"
proof (induction calls arbitrary: rw)
  case Nil
  then show ?case by simp
next
  case (Cons c cs)
  show ?case
  proof (cases c)
    case (CallWriteHeader st)
    then show ?thesis
      using Cons [of "WriteHeader I rw st"]
      by (simp add: WriteHeader_def Let_def case_prod_beta)
  next
    case (CallWrite b)
    then show ?thesis
      using Cons [of "snd (Write I rw b)"]
      by (simp add: Write_forwards Let_def case_prod_beta)
  qed
qed

lemma run_calls_status:
  "status (snd (run_calls I rw calls)) = last_status (status rw) calls"
proof (induction calls arbitrary: rw)
  case Nil
  then show ?case by simp
next
  case (Cons c cs)
  show ?case
  proof (cases c)
    case (CallWriteHeader st)
    then show ?thesis
      using Cons [of "WriteHeader I rw st"]
      by (simp add: WriteHeader_def Let_def case_prod_beta)
  next
    case (CallWrite b)
    then show ?thesis
      using Cons [of "snd (Write I rw b)"]
      by (simp add: Write_forwards Let_def case_prod_beta)
  qed
qed

lemma last_status_no_header:
  "list_all (\<lambda>c. \<not> is_WriteHeader c) calls \<Longrightarrow> last_status st calls = st"
  by (induction st calls rule: last_status.induct) simp_all

lemma sint_in_range:
  fixes w :: go_int
  assumes "- (2 ^ 63) \<le> sint w + k" "sint w + k < 2 ^ 63"
  shows "sint (w + word_of_int k) = sint w + k"
proof -
  have "w + word_of_int k = word_of_int (sint w + k)" by simp
  then show ?thesis using assms by (simp add: sint_sbintrunc' signed_take_bit_int_eq_self del: of_int_add)
qed

lemmas wrapper_evals = Write_def WriteHeader_def short_writer_def
  fresh_wrapper_def fresh_recorder_def hello_body_def Let_def

text \<open>
  C4. Each write through the wrapper hands the same bytes to the underlying writer and
  returns the underlying writer's count and error as they are: the underlying writer
  goes through the states, and the caller sees the results, of the same calls made
  without the wrapper. The recorded size grows by the count the underlying writer
  returned, so after any sequence of calls it is the starting size plus the sum of the
  accepted counts, short writes that end in an error included; the sum is exact as
  long as it fits Go's \<^verbatim>\<open>int\<close> (the addition is the machine's, at 64 bits).
\<close>

theorem observer_counts_accepted_bytes:
  "Write I rw b =
     (fst (impl_Write I (ResponseWriter rw) b),
      rw\<lparr>ResponseWriter := snd (impl_Write I (ResponseWriter rw) b),
         size := size rw + fst (fst (impl_Write I (ResponseWriter rw) b))\<rparr>)
   \<and> direct_calls I (ResponseWriter rw) calls =
       (fst (run_calls I rw calls), ResponseWriter (snd (run_calls I rw calls)))
   \<and> size (snd (run_calls I rw calls)) =
       size rw + word_of_int (accepted (fst (run_calls I rw calls)))
   \<and> (- (2 ^ 63) \<le> sint (size rw) + accepted (fst (run_calls I rw calls))
        \<and> sint (size rw) + accepted (fst (run_calls I rw calls)) < 2 ^ 63
      \<longrightarrow> sint (size (snd (run_calls I rw calls))) =
            sint (size rw) + accepted (fst (run_calls I rw calls)))"
proof -
  have exact: "sint (size (snd (run_calls I rw calls))) =
      sint (size rw) + accepted (fst (run_calls I rw calls))"
    if "- (2 ^ 63) \<le> sint (size rw) + accepted (fst (run_calls I rw calls))
        \<and> sint (size rw) + accepted (fst (run_calls I rw calls)) < 2 ^ 63"
    unfolding run_calls_size using that by (simp only: sint_in_range)
  show ?thesis
    using Write_forwards [of I rw b] run_calls_direct [of I rw calls]
      run_calls_size [of I rw calls] exact
    by blast
qed

theorem observer_counts_accepted_bytes_witness:
  "fst (run_calls short_writer fresh_wrapper [CallWrite hello_body, CallWrite [33, 10]]) =
     [Written 4 (Some ''short write''), Written 2 None]
   \<and> accepted [Written 4 (Some ''short write''), Written 2 None] = 6
   \<and> sint (size (snd (run_calls short_writer fresh_wrapper
        [CallWrite hello_body, CallWrite [33, 10]]))) = 6
   \<and> bytes_seen (ResponseWriter (snd (run_calls short_writer fresh_wrapper
        [CallWrite hello_body, CallWrite [33, 10]]))) = [104, 101, 108, 108, 33, 10]"
proof -
  let ?calls = "[CallWrite hello_body, CallWrite [33, 10]]"
  have rs: "fst (run_calls short_writer fresh_wrapper ?calls) =
      [Written 4 (Some ''short write''), Written 2 None]"
    by (simp add: wrapper_evals)
  have acc: "accepted [Written 4 (Some ''short write''), Written 2 None] = 6"
    by simp
  have start: "sint (size fresh_wrapper) = 0"
    by (simp add: fresh_wrapper_def)
  have range: "- (2 ^ 63) \<le> sint (size fresh_wrapper)
        + accepted (fst (run_calls short_writer fresh_wrapper ?calls))
      \<and> sint (size fresh_wrapper)
        + accepted (fst (run_calls short_writer fresh_wrapper ?calls)) < 2 ^ 63"
    unfolding rs acc start by simp
  have "sint (size (snd (run_calls short_writer fresh_wrapper ?calls))) =
      sint (size fresh_wrapper) + accepted (fst (run_calls short_writer fresh_wrapper ?calls))"
    using observer_counts_accepted_bytes
      [where I = short_writer and rw = fresh_wrapper and calls = ?calls,
       THEN conjunct2, THEN conjunct2, THEN conjunct2] range
    by (rule mp)
  then have sz: "sint (size (snd (run_calls short_writer fresh_wrapper ?calls))) = 6"
    unfolding rs acc start by simp
  have seen: "bytes_seen (ResponseWriter (snd (run_calls short_writer fresh_wrapper ?calls))) =
      [104, 101, 108, 108, 33, 10]"
    by (simp add: wrapper_evals)
  show ?thesis using rs acc sz seen by simp
qed

text \<open>
  C2, as the code has it. \<^verbatim>\<open>WriteHeader\<close> overwrites the recorded status on every call,
  so after a handler's calls the recorded status is that of the last \<^verbatim>\<open>WriteHeader\<close>,
  not of the first; with no \<^verbatim>\<open>WriteHeader\<close> at all it is still the 200 the middleware
  starts from, and the line the middleware then logs reads 200 in its status field.
\<close>

theorem observer_records_last_status:
  \<open>status (snd (run_calls I rw calls)) = last_status (status rw) calls
   \<and> (list_all (\<lambda>c. \<not> is_WriteHeader c) calls \<longrightarrow>
        status (snd (run_calls I rw calls)) = status rw)
   \<and> (nxt r = (calls, Returns) \<and> list_all (\<lambda>c. \<not> is_WriteHeader c) calls \<longrightarrow>
        status (observed I w calls) = 200
        \<and> snd (snd (ApacheLogMiddleware I now lg format nxt w r)) =
            lg @ [formatLogEntry r (observed I w calls) now format]
        \<and> formatLogEntry r (observed I w calls) now CommonLogFormat =
            RemoteAddr r @ '' - - '' @ Format now ''[02/Jan/2006:15:04:05 -0700]'' @ '' "''
              @ Method r @ '' '' @ RequestURI r @ '' '' @ Proto r @ ''" 200 ''
              @ itoa (sint (size (observed I w calls))))\<close>
proof -
  have quiet: "status (snd (run_calls I rw calls)) = status rw"
    if "list_all (\<lambda>c. \<not> is_WriteHeader c) calls"
    using that by (simp add: run_calls_status last_status_no_header)
  have logged: \<open>status (observed I w calls) = 200
        \<and> snd (snd (ApacheLogMiddleware I now lg format nxt w r)) =
            lg @ [formatLogEntry r (observed I w calls) now format]
        \<and> formatLogEntry r (observed I w calls) now CommonLogFormat =
            RemoteAddr r @ '' - - '' @ Format now ''[02/Jan/2006:15:04:05 -0700]'' @ '' "''
              @ Method r @ '' '' @ RequestURI r @ '' '' @ Proto r @ ''" 200 ''
              @ itoa (sint (size (observed I w calls)))\<close>
    if h: "nxt r = (calls, Returns) \<and> list_all (\<lambda>c. \<not> is_WriteHeader c) calls"
  proof -
    have st: "status (observed I w calls) = 200"
      using h by (simp add: observed_def run_calls_status last_status_no_header)
    have lg: "snd (snd (ApacheLogMiddleware I now lg format nxt w r)) =
        lg @ [formatLogEntry r (observed I w calls) now format]"
      using h by (simp add: ApacheLogMiddleware_def observed_def Info_def Let_def case_prod_beta)
    have "itoa (sint (200 :: go_int)) = ''200''"
      by (simp add: itoa_def utoa_step utoa_small digit_def)
    then have line: \<open>formatLogEntry r (observed I w calls) now CommonLogFormat =
        RemoteAddr r @ '' - - '' @ Format now ''[02/Jan/2006:15:04:05 -0700]'' @ '' "''
          @ Method r @ '' '' @ RequestURI r @ '' '' @ Proto r @ ''" 200 ''
          @ itoa (sint (size (observed I w calls)))\<close>
      by (simp add: formatLogEntry_not_combined [OF formats_differ] st)
    show ?thesis using st lg line by simp
  qed
  show ?thesis using run_calls_status [of I rw calls] quiet logged by blast
qed

theorem observer_records_last_status_witness:
  \<open>hello_handler hello_request = ([CallWrite hello_body, CallWrite [33, 10]], Returns)
   \<and> list_all (\<lambda>c. \<not> is_WriteHeader c) [CallWrite hello_body, CallWrite [33, 10]]
   \<and> snd (snd (ApacheLogMiddleware short_writer hello_start [] CommonLogFormat hello_handler
        fresh_recorder hello_request)) =
       [''1.2.3.4 - - [10/Oct/2023:13:55:36 +0000] "GET /api/hello HTTP/1.1" 200 6'']
   \<and> status (snd (run_calls short_writer fresh_wrapper
        [CallWriteHeader 301, CallWrite hello_body, CallWriteHeader 404])) = 404\<close>
proof -
  let ?calls = "[CallWrite hello_body, CallWrite [33, 10]]"
  have h: "hello_handler hello_request = (?calls, Returns)"
    by (simp add: hello_handler_def)
  have q: "list_all (\<lambda>c. \<not> is_WriteHeader c) ?calls"
    by simp
  have sz: "size (observed short_writer fresh_recorder ?calls) = 6"
    by (simp add: observed_def wrapper_evals)
  have "snd (snd (ApacheLogMiddleware short_writer hello_start [] CommonLogFormat hello_handler
        fresh_recorder hello_request)) =
      [formatLogEntry hello_request (observed short_writer fresh_recorder ?calls) hello_start
         CommonLogFormat]
      \<and> formatLogEntry hello_request (observed short_writer fresh_recorder ?calls) hello_start
          CommonLogFormat =
        RemoteAddr hello_request @ '' - - ''
          @ Format hello_start ''[02/Jan/2006:15:04:05 -0700]'' @ [CHR '' '', CHR 0x22]
          @ Method hello_request @ '' '' @ RequestURI hello_request @ '' ''
          @ Proto hello_request @ [CHR 0x22, CHR '' '', CHR ''2'', CHR ''0'', CHR ''0'', CHR '' '']
          @ itoa (sint (size (observed short_writer fresh_recorder ?calls)))"
    using observer_records_last_status
      [where I = short_writer and calls = ?calls and nxt = hello_handler
         and r = hello_request and w = fresh_recorder and now = hello_start and lg = "[]"
         and format = CommonLogFormat] h q
    by simp
  then have line: \<open>snd (snd (ApacheLogMiddleware short_writer hello_start [] CommonLogFormat
        hello_handler fresh_recorder hello_request)) =
      [''1.2.3.4 - - [10/Oct/2023:13:55:36 +0000] "GET /api/hello HTTP/1.1" 200 6'']\<close>
    unfolding sz by (simp add: evals)
  have "status (snd (run_calls short_writer fresh_wrapper
      [CallWriteHeader 301, CallWrite hello_body, CallWriteHeader 404])) =
      last_status (status fresh_wrapper)
        [CallWriteHeader 301, CallWrite hello_body, CallWriteHeader 404]"
    using observer_records_last_status
      [where I = short_writer and rw = fresh_wrapper
         and calls = "[CallWriteHeader 301, CallWrite hello_body, CallWriteHeader 404]"]
    by blast
  then have last: "status (snd (run_calls short_writer fresh_wrapper
      [CallWriteHeader 301, CallWrite hello_body, CallWriteHeader 404])) = 404"
    by simp
  show ?thesis using h q line last by simp
qed

text \<open>
  C2 as the specification states it fails: a handler that calls \<^verbatim>\<open>WriteHeader(404)\<close> and
  then \<^verbatim>\<open>WriteHeader(500)\<close> leaves 500 recorded, while the first status it set is 404.
\<close>

theorem first_status_not_kept:
  "status (snd (run_calls short_writer fresh_wrapper [CallWriteHeader 404, CallWriteHeader 500]))
     = 500
   \<and> first_status (status fresh_wrapper) [CallWriteHeader 404, CallWriteHeader 500] = 404
   \<and> status (snd (run_calls short_writer fresh_wrapper [CallWriteHeader 404, CallWriteHeader 500]))
     \<noteq> first_status (status fresh_wrapper) [CallWriteHeader 404, CallWriteHeader 500]"
  by (simp add: wrapper_evals)

text \<open>
  C8, as the code has it. When the handler returns, the middleware appends exactly one
  entry to the log: the line formatted from the request, the start time read before
  the handler ran and the wrapper as the handler left it. When the handler panics, the
  panic goes on to the caller (it is neither caught nor turned into a return) and
  nothing is appended, the formatting and the logging being the statements after the
  call.
\<close>

theorem middleware_logs_on_return:
  "(nxt r = (calls, Returns) \<longrightarrow>
      ApacheLogMiddleware I now lg format nxt w r =
        (Returns, ResponseWriter (observed I w calls),
         lg @ [formatLogEntry r (observed I w calls) now format]))
   \<and> (nxt r = (calls, Panics) \<longrightarrow>
      ApacheLogMiddleware I now lg format nxt w r =
        (Panics, ResponseWriter (observed I w calls), lg))"
  by (simp add: ApacheLogMiddleware_def observed_def Info_def Let_def case_prod_beta)

theorem middleware_logs_on_return_witness:
  \<open>hello_handler browser_request = ([CallWrite hello_body, CallWrite [33, 10]], Returns)
   \<and> ApacheLogMiddleware short_writer india_morning [''earlier line''] CommonLogFormat
        hello_handler fresh_recorder browser_request =
       (Returns, \<lparr>headers_seen = [], bytes_seen = [104, 101, 108, 108, 33, 10]\<rparr>,
        [''earlier line'',
         ''10.0.0.7:51234 - - [05/Mar/2024:07:08:09 +0530] "POST /login?next=%2F HTTP/2.0" 200 6''])
   \<and> panicking_handler browser_request = ([CallWriteHeader 500, CallWrite hello_body], Panics)
   \<and> ApacheLogMiddleware short_writer india_morning [''earlier line''] CommonLogFormat
        panicking_handler fresh_recorder browser_request =
       (Panics, \<lparr>headers_seen = [500], bytes_seen = [104, 101, 108, 108]\<rparr>, [''earlier line''])\<close>
proof -
  let ?calls = "[CallWrite hello_body, CallWrite [33, 10]]"
  let ?pcalls = "[CallWriteHeader 500, CallWrite hello_body]"
  have h: "hello_handler browser_request = (?calls, Returns)"
    by (simp add: hello_handler_def)
  have p: "panicking_handler browser_request = (?pcalls, Panics)"
    by (simp add: panicking_handler_def)
  have ob: "observed short_writer fresh_recorder ?calls =
      \<lparr>ResponseWriter = \<lparr>headers_seen = [], bytes_seen = [104, 101, 108, 108, 33, 10]\<rparr>,
       status = 200, size = 6\<rparr>"
    by (simp add: observed_def wrapper_evals)
  have pob: "observed short_writer fresh_recorder ?pcalls =
      \<lparr>ResponseWriter = \<lparr>headers_seen = [500], bytes_seen = [104, 101, 108, 108]\<rparr>,
       status = 500, size = 4\<rparr>"
    by (simp add: observed_def wrapper_evals)
  have "ApacheLogMiddleware short_writer india_morning [''earlier line''] CommonLogFormat
        hello_handler fresh_recorder browser_request =
      (Returns, ResponseWriter (observed short_writer fresh_recorder ?calls),
       [''earlier line''] @ [formatLogEntry browser_request
          (observed short_writer fresh_recorder ?calls) india_morning CommonLogFormat])"
    using middleware_logs_on_return
      [where nxt = hello_handler and r = browser_request and calls = ?calls
         and I = short_writer and now = india_morning and lg = "[''earlier line'']"
         and format = CommonLogFormat and w = fresh_recorder] h
    by blast
  then have returned: \<open>ApacheLogMiddleware short_writer india_morning [''earlier line'']
        CommonLogFormat hello_handler fresh_recorder browser_request =
       (Returns, \<lparr>headers_seen = [], bytes_seen = [104, 101, 108, 108, 33, 10]\<rparr>,
        [''earlier line'',
         ''10.0.0.7:51234 - - [05/Mar/2024:07:08:09 +0530] "POST /login?next=%2F HTTP/2.0" 200 6''])\<close>
    unfolding ob by (simp add: evals)
  have "ApacheLogMiddleware short_writer india_morning [''earlier line''] CommonLogFormat
        panicking_handler fresh_recorder browser_request =
      (Panics, ResponseWriter (observed short_writer fresh_recorder ?pcalls), [''earlier line''])"
    using middleware_logs_on_return
      [where nxt = panicking_handler and r = browser_request and calls = ?pcalls
         and I = short_writer and now = india_morning and lg = "[''earlier line'']"
         and format = CommonLogFormat and w = fresh_recorder] p
    by blast
  then have panicked: "ApacheLogMiddleware short_writer india_morning [''earlier line'']
        CommonLogFormat panicking_handler fresh_recorder browser_request =
      (Panics, \<lparr>headers_seen = [500], bytes_seen = [104, 101, 108, 108]\<rparr>, [''earlier line''])"
    unfolding pob by simp
  show ?thesis using h p returned panicked by simp
qed

text \<open>
  C8 as the specification states it fails: a handler that writes and then panics takes
  control back through the middleware's frame, and the log is as it was, with no line
  for the request.
\<close>

theorem panic_leaves_no_line:
  "fst (ApacheLogMiddleware short_writer hello_start [''earlier line''] CommonLogFormat
        panicking_handler fresh_recorder hello_request) = Panics
   \<and> snd (snd (ApacheLogMiddleware short_writer hello_start [''earlier line''] CommonLogFormat
        panicking_handler fresh_recorder hello_request)) = [''earlier line'']
   \<and> length (snd (snd (ApacheLogMiddleware short_writer hello_start [''earlier line'']
        CommonLogFormat panicking_handler fresh_recorder hello_request)))
      \<noteq> length [''earlier line''] + 1"
  by (simp add: ApacheLogMiddleware_def panicking_handler_def case_prod_beta wrapper_evals)

section \<open>The file system and the permission guardian\<close>

lemma entry_put: "entry (put fs k info) q = (if q = k then Some info else entry fs q)"
  by (simp add: entry_def put_def update_conv')

lemma same_process_put: "same_process fs (put fs k info)"
  by (simp add: same_process_def put_def)

lemma same_process_refl: "same_process fs fs"
  by (simp add: same_process_def)

lemma same_process_trans: "same_process a b \<Longrightarrow> same_process b c \<Longrightarrow> same_process a c"
  by (simp add: same_process_def)

lemma octal_640_perm: "octal 6 4 0 AND ModePerm = octal 6 4 0"
  by (simp add: octal_def ModePerm_def)

lemma Chmod_640:
  "Chmod fs p (octal 6 4 0) =
     (case target fs p of
        Inl err \<Rightarrow> (Some err, fs)
      | Inr (k, info) \<Rightarrow>
          if superuser fs \<or> Owned info then (None, put fs k (info\<lparr>Perm := octal 6 4 0\<rparr>))
          else (Some EPERM, fs))"
  by (simp add: Chmod_def octal_640_perm split: sum.splits)

lemma target_entry: "target fs p = Inr (k, info) \<Longrightarrow> resolve fs p = Inr k \<and> entry fs k = Some info"
  by (auto simp: target_def split: sum.splits option.splits if_splits)

lemma Stat_target: "Stat fs p = Inr info \<longleftrightarrow> (\<exists>k. target fs p = Inr (k, info))"
  by (auto simp: Stat_def split: sum.splits)

lemma Stat_error: "Stat fs p = Inl err \<longleftrightarrow> target fs p = Inl err"
  by (auto simp: Stat_def split: sum.splits)

lemma masked_750_bits: "(octal 7 5 0 AND ModePerm AND NOT u) AND octal 0 2 7 = 0"
proof -
  have "(octal 7 5 0 AND ModePerm AND NOT u) AND octal 0 2 7
      = (octal 7 5 0 AND ModePerm AND octal 0 2 7) AND NOT u"
    by (simp add: ac_simps)
  also have "octal 7 5 0 AND ModePerm AND octal 0 2 7 = 0"
    by (simp add: octal_def ModePerm_def)
  finally show ?thesis by simp
qed

lemma secure_matches_append:
  "secure_matches fs (a @ b) =
     (case secure_matches fs a of
        (None, fs1) \<Rightarrow> secure_matches fs1 b
      | (Some e, fs1) \<Rightarrow> (Some e, fs1))"
proof (induction a arbitrary: fs)
  case Nil
  then show ?case by simp
next
  case (Cons m ms)
  show ?case
    by (simp add: Cons Chmod_640 split: sum.splits option.splits prod.splits)
qed

lemma no_search_640:
  "\<not> permitted (fs\<lparr>superuser := False\<rparr>) (i\<lparr>Perm := octal 6 4 0\<rparr>) 1"
  by (simp add: permitted_def octal_def)












lemma grown_refl: "grown_by_dirs fs mode fs"
  by (simp add: grown_by_dirs_def same_process_refl)

lemma grown_trans:
  assumes "grown_by_dirs fs mode fs1" "grown_by_dirs fs1 mode fs2"
  shows "grown_by_dirs fs mode fs2"
  unfolding grown_by_dirs_def
proof (intro conjI allI impI)
  show "same_process fs fs2"
    using assms by (auto simp: grown_by_dirs_def intro: same_process_trans)
next
  fix k i assume "entry fs k = Some i"
  then show "entry fs2 k = Some i" using assms by (simp add: grown_by_dirs_def)
next
  fix k i assume a: "entry fs k = None" "entry fs2 k = Some i"
  show "i = new_entry fs True mode"
  proof (cases "entry fs1 k")
    case None
    with a(2) assms(2) have "i = new_entry fs1 True mode" by (simp add: grown_by_dirs_def)
    moreover have "umask fs1 = umask fs"
      using assms(1) by (simp add: grown_by_dirs_def same_process_def)
    ultimately show ?thesis by (simp add: new_entry_def)
  next
    case (Some j)
    with a(1) assms(1) have "j = new_entry fs True mode" by (simp add: grown_by_dirs_def)
    moreover from Some assms(2) have "entry fs2 k = Some j" by (simp add: grown_by_dirs_def)
    ultimately show ?thesis using a(2) by simp
  qed
qed

lemma create_cases:
  "create fs k isdir mode = (r, fs') \<Longrightarrow>
     (r \<noteq> None \<and> fs' = fs) \<or> (r = None \<and> fs' = put fs k (new_entry fs isdir mode))"
  by (auto simp: create_def new_entry_def split: option.splits if_splits)

lemma Mkdir_cases:
  "Mkdir fs p mode = (r, fs') \<Longrightarrow>
     (r \<noteq> None \<and> fs' = fs)
     \<or> (r = None \<and> (\<exists>k. resolve fs p = Inr k \<and> entry fs k = None
                          \<and> fs' = put fs k (new_entry fs True mode)))"
  by (auto simp: Mkdir_def dest: create_cases split: option.splits sum.splits)

lemma Mkdir_grown: "Mkdir fs p mode = (r, fs') \<Longrightarrow> grown_by_dirs fs mode fs'"
  by (drule Mkdir_cases)
    (auto simp: grown_by_dirs_def entry_put same_process_put same_process_refl split: if_splits)

lemma MkdirAll_unfold:
  "MkdirAll fs p mode = (r, fs') \<Longrightarrow>
     fs' = fs
     \<or> (\<exists>e1 fs1. (if parent_prefix p \<noteq> [] then MkdirAll fs (parent_prefix p) mode
                    else (None, fs)) = (e1, fs1)
            \<and> (\<exists>e. Stat fs p = Inl e)
            \<and> (fs' = fs1 \<or> (\<exists>r2. Mkdir fs1 p mode = (r2, fs'))))"
  apply (subst (asm) MkdirAll.simps)
  apply (auto split: option.splits sum.splits prod.splits if_splits)
  done

lemma MkdirAll_noop: "Stat fs p = Inr d \<Longrightarrow> IsDir d \<Longrightarrow> MkdirAll fs p mode = (None, fs)"
  by (subst MkdirAll.simps) simp

lemma MkdirAll_grown:
  "MkdirAll fs p mode = (r, fs') \<Longrightarrow> grown_by_dirs fs mode fs'"
proof (induction fs p mode arbitrary: r fs' rule: MkdirAll.induct)
  case (1 fs p mode)
  from MkdirAll_unfold [OF "1.prems"] show ?case
  proof (elim disjE exE conjE)
    assume "fs' = fs"
    then show ?thesis by (simp add: grown_refl)
  next
    fix e1 fs1 e
    assume par: "(if parent_prefix p \<noteq> [] then MkdirAll fs (parent_prefix p) mode
                    else (None, fs)) = (e1, fs1)"
      and st: "Stat fs p = Inl e" and "fs' = fs1"
    have g1: "grown_by_dirs fs mode fs1"
    proof (cases "parent_prefix p \<noteq> []")
      case True
      with par have "MkdirAll fs (parent_prefix p) mode = (e1, fs1)" by simp
      from "1.IH" [OF st True this] show ?thesis .
    next
      case False
      with par show ?thesis by (simp add: grown_refl)
    qed
    with \<open>fs' = fs1\<close> show ?thesis by simp
  next
    fix e1 fs1 e r2
    assume par: "(if parent_prefix p \<noteq> [] then MkdirAll fs (parent_prefix p) mode
                    else (None, fs)) = (e1, fs1)"
      and st: "Stat fs p = Inl e"
      and mk: "Mkdir fs1 p mode = (r2, fs')"
    have g1: "grown_by_dirs fs mode fs1"
    proof (cases "parent_prefix p \<noteq> []")
      case True
      with par have "MkdirAll fs (parent_prefix p) mode = (e1, fs1)" by simp
      from "1.IH" [OF st True this] show ?thesis .
    next
      case False
      with par show ?thesis by (simp add: grown_refl)
    qed
    from grown_trans [OF g1 Mkdir_grown [OF mk]] show ?thesis .
  qed
qed

lemma OpenFile_append_cases:
  "OpenFile_append fs p mode = (r, fs') \<Longrightarrow>
     fs' = fs
     \<or> (r = None \<and> (\<exists>k. resolve fs p = Inr k \<and> entry fs k = None
                          \<and> fs' = put fs k (new_entry fs False mode)))"
  by (auto simp: OpenFile_append_def dest: create_cases split: option.splits sum.splits if_splits)

text \<open>Path resolution in a file system that has grown by new entries.\<close>

lemma grown_search:
  assumes "grown_by_dirs fs mode fs1" "entry fs k = Some d"
  shows "entry fs1 k = Some d" "may_search fs1 d = may_search fs d"
  using assms by (simp_all add: grown_by_dirs_def same_process_def may_search_def permitted_def)

lemma grown_walk:
  "grown_by_dirs fs mode fs1 \<Longrightarrow> walk fs cur es = Inr k \<Longrightarrow> entry fs k = Some i \<Longrightarrow>
   walk fs1 cur es = Inr k"
proof (induction es arbitrary: cur)
  case Nil
  then show ?case by simp
next
  case (Cons e es)
  show ?case
  proof (cases "e = ''''")
    case True
    with Cons show ?thesis by simp
  next
    case False
    with Cons.prems(2) obtain d where d: "entry fs cur = Some d" "IsDir d" "may_search fs d"
      and w: "walk fs (if e = ''.'' then cur else if e = ''..'' then butlast cur else cur @ [e]) es = Inr k"
      by (auto split: option.splits if_splits)
    from grown_search [OF Cons.prems(1) d(1)] d
    have d1: "entry fs1 cur = Some d" "may_search fs1 d" by simp_all
    from Cons.IH [OF Cons.prems(1) w Cons.prems(3)] d1 d(2) False show ?thesis by simp
  qed
qed

lemma grown_target:
  assumes "grown_by_dirs fs mode fs1" "target fs p = Inr (k, info)"
  shows "target fs1 p = Inr (k, info)"
proof -
  from assms(2) have r: "resolve fs p = Inr k" and e: "entry fs k = Some info"
    by (simp_all add: target_entry)
  from assms(2) r e have dirok: "\<not> (is_sep (last p) \<and> \<not> IsDir info)"
    by (auto simp: target_def split: if_splits)
  from r have ne: "p \<noteq> ''''" by (auto simp: resolve_def split: if_splits)
  from assms(1) have c: "cwd fs1 = cwd fs" by (simp add: grown_by_dirs_def same_process_def)
  from r ne have "walk fs (if is_sep (hd p) then [] else cwd fs) (split_sep p) = Inr k"
    by (simp add: resolve_def)
  from grown_walk [OF assms(1) this e] ne c have "resolve fs1 p = Inr k"
    by (auto simp: resolve_def split: if_splits)
  moreover from e assms(1) have "entry fs1 k = Some info" by (simp add: grown_by_dirs_def)
  ultimately show ?thesis using dirok by (auto simp: target_def)
qed

text \<open>What \<^verbatim>\<open>secureLogFile\<close> does after \<^verbatim>\<open>MkdirAll\<close>.\<close>

lemma secureLogFile_after_MkdirAll:
  assumes "MkdirAll fs (Dir p) (octal 7 5 0) = (e1, fs1)"
  shows "snd (secureLogFile fs p) = fs1
     \<or> (\<exists>k. resolve fs1 p = Inr k \<and> entry fs1 k = None
            \<and> snd (secureLogFile fs p) = put fs1 k (new_entry fs1 False (octal 6 4 0)))
     \<or> (\<exists>k info. target fs1 p = Inr (k, info)
            \<and> snd (secureLogFile fs p) = put fs1 k (info\<lparr>Perm := octal 6 4 0\<rparr>))"
proof (cases e1)
  case (Some err)
  with assms show ?thesis by (simp add: secureLogFile_def)
next
  case None
  show ?thesis
  proof (cases "Stat fs1 p")
    case (Inl err)
    show ?thesis
    proof (cases "IsNotExist err")
      case True
      obtain r3 fs3 where o: "OpenFile_append fs1 p (octal 6 4 0) = (r3, fs3)"
        by (cases "OpenFile_append fs1 p (octal 6 4 0)")
      with assms None Inl True have "snd (secureLogFile fs p) = fs3"
        by (cases r3) (simp_all add: secureLogFile_def)
      with OpenFile_append_cases [OF o] show ?thesis by auto
    next
      case False
      with assms None Inl show ?thesis by (simp add: secureLogFile_def)
    qed
  next
    case (Inr info)
    then obtain k where t: "target fs1 p = Inr (k, info)" by (auto simp: Stat_target)
    with assms None Inr show ?thesis
      by (auto simp: secureLogFile_def Chmod_640)
  qed
qed

lemma secureLogFile_existing:
  assumes "target fs p = Inr (k, info)" "Stat fs (Dir p) = Inr d" "IsDir d"
  shows "secureLogFile fs p =
     (if Perm info = octal 6 4 0 then (None, fs)
      else if superuser fs \<or> Owned info then (None, put fs k (info\<lparr>Perm := octal 6 4 0\<rparr>))
      else (Some (Errorf ''failed to set log file permissions'' (Errno EPERM)), fs))"
proof -
  from assms(1) have "Stat fs p = Inr info" by (auto simp: Stat_target)
  with assms show ?thesis
    by (simp add: secureLogFile_def MkdirAll_noop [OF assms(2,3)] Chmod_640)
qed

lemma secureLogFile_unreachable:
  assumes "Stat fs p = Inl err" "err \<noteq> ENOENT" "Stat fs (Dir p) = Inr d" "IsDir d"
  shows "secureLogFile fs p = (Some (Errorf ''failed to check log file'' (Errno err)), fs)"
  using assms by (simp add: secureLogFile_def MkdirAll_noop [OF assms(3,4)] IsNotExist_def)

lemma secureLogFile_frame:
  assumes "target fs p = Inr (k, info)"
  shows "(\<exists>info'. entry (snd (secureLogFile fs p)) k = Some info'
            \<and> (info' = info \<or> info' = info\<lparr>Perm := octal 6 4 0\<rparr>))
         \<and> (\<forall>q other. q \<noteq> k \<and> entry fs q = Some other \<longrightarrow>
               entry (snd (secureLogFile fs p)) q = Some other)
         \<and> same_process fs (snd (secureLogFile fs p))"
proof -
  obtain e1 fs1 where m: "MkdirAll fs (Dir p) (octal 7 5 0) = (e1, fs1)"
    by (cases "MkdirAll fs (Dir p) (octal 7 5 0)")
  have g: "grown_by_dirs fs (octal 7 5 0) fs1" using m by (rule MkdirAll_grown)
  from grown_target [OF g assms] have t1: "target fs1 p = Inr (k, info)" .
  then have r1: "resolve fs1 p = Inr k" and e1: "entry fs1 k = Some info"
    by (simp_all add: target_entry)
  from g have kept: "\<And>q i. entry fs q = Some i \<Longrightarrow> entry fs1 q = Some i"
    and sp: "same_process fs fs1"
    unfolding grown_by_dirs_def by blast+
  from secureLogFile_after_MkdirAll [OF m] r1 e1 t1
  have "snd (secureLogFile fs p) = fs1
      \<or> snd (secureLogFile fs p) = put fs1 k (info\<lparr>Perm := octal 6 4 0\<rparr>)"
    by auto
  then show ?thesis
  proof
    assume "snd (secureLogFile fs p) = fs1"
    then show ?thesis using kept e1 sp by simp
  next
    assume s: "snd (secureLogFile fs p) = put fs1 k (info\<lparr>Perm := octal 6 4 0\<rparr>)"
    have "same_process fs (put fs1 k (info\<lparr>Perm := octal 6 4 0\<rparr>))"
      using sp by (simp add: same_process_def put_def)
    then show ?thesis using kept by (simp add: s entry_put)
  qed
qed




text \<open>
  C3, as the code has it. The loop over the matches returns at the first error: when
  the candidates before \<open>m\<close> have been fixed and \<^verbatim>\<open>Stat\<close> of \<open>m\<close> fails, whatever the
  error (for a file that is no longer there it is \<^verbatim>\<open>ENOENT\<close>), or its mode differs
  and \<^verbatim>\<open>Chmod\<close> fails, the pass ends with that error wrapped with the candidate's
  path, and the file system is as the candidates before \<open>m\<close> left it: the candidates
  after \<open>m\<close> are not looked at.
\<close>

theorem first_error_ends_pass:
  "(Glob fs (log_pattern logPath) = (matches, None) \<longrightarrow>
      SecureRotatedLogs fs logPath = secure_matches fs matches)
   \<and> (resolve fs1 m = Inr k \<and> entry fs1 k = None \<longrightarrow> Stat fs1 m = Inl ENOENT)
   \<and> (secure_matches fs pre = (None, fs1) \<and> Stat fs1 m = Inl err \<longrightarrow>
        secure_matches fs (pre @ m # post) =
          (Some (Errorf (''failed to stat log file '' @ m) (Errno err)), fs1))
   \<and> (secure_matches fs pre = (None, fs1) \<and> Stat fs1 m = Inr info
        \<and> Perm info \<noteq> octal 6 4 0 \<and> Chmod fs1 m (octal 6 4 0) = (Some err, fs2) \<longrightarrow>
        fs2 = fs1 \<and>
        secure_matches fs (pre @ m # post) =
          (Some (Errorf (''failed to chmod log file '' @ m) (Errno err)), fs1))"
proof -
  have pass: "SecureRotatedLogs fs logPath = secure_matches fs matches"
    if "Glob fs (log_pattern logPath) = (matches, None)"
    using that by (simp add: SecureRotatedLogs_def)
  have gone: "Stat fs1 m = Inl ENOENT" if "resolve fs1 m = Inr k \<and> entry fs1 k = None"
    using that by (simp add: Stat_def target_def)
  have stat: "secure_matches fs (pre @ m # post) =
      (Some (Errorf (''failed to stat log file '' @ m) (Errno err)), fs1)"
    if "secure_matches fs pre = (None, fs1) \<and> Stat fs1 m = Inl err"
    using that by (simp add: secure_matches_append)
  have chmod: "fs2 = fs1 \<and> secure_matches fs (pre @ m # post) =
      (Some (Errorf (''failed to chmod log file '' @ m) (Errno err)), fs1)"
    if h: "secure_matches fs pre = (None, fs1) \<and> Stat fs1 m = Inr info
        \<and> Perm info \<noteq> octal 6 4 0 \<and> Chmod fs1 m (octal 6 4 0) = (Some err, fs2)"
  proof -
    from h have "fs2 = fs1"
      by (auto simp: Chmod_640 split: sum.splits if_splits)
    with h show ?thesis by (simp add: secure_matches_append)
  qed
  show ?thesis using pass gone stat chmod by blast
qed

theorem first_error_ends_pass_witness:
  "secure_matches foreign_sibling [''/var/log/apache2/access-2023-10-09T13-55-36.000.log.gz'']
     = (None, snd (secure_matches foreign_sibling
         [''/var/log/apache2/access-2023-10-09T13-55-36.000.log.gz'']))
   \<and> secure_matches foreign_sibling
       [''/var/log/apache2/access-2023-10-09T13-55-36.000.log.gz'',
        ''/var/log/apache2/access-2023-10-10T13-55-36.000.log'',
        ''/var/log/apache2/access.log'']
     = (Some (Errorf
          ''failed to chmod log file /var/log/apache2/access-2023-10-10T13-55-36.000.log''
          (Errno EPERM)),
        snd (secure_matches foreign_sibling
          [''/var/log/apache2/access-2023-10-09T13-55-36.000.log.gz'']))
   \<and> mode_at (snd (secure_matches foreign_sibling
          [''/var/log/apache2/access-2023-10-09T13-55-36.000.log.gz'']))
        ''/var/log/apache2/access-2023-10-09T13-55-36.000.log.gz'' = Some (octal 6 4 0)
   \<and> mode_at (snd (secure_matches foreign_sibling
          [''/var/log/apache2/access-2023-10-09T13-55-36.000.log.gz'']))
        ''/var/log/apache2/access.log'' = Some (octal 6 4 4)"
proof -
  let ?gz = "''/var/log/apache2/access-2023-10-09T13-55-36.000.log.gz''"
  let ?m = "''/var/log/apache2/access-2023-10-10T13-55-36.000.log''"
  let ?live = "''/var/log/apache2/access.log''"
  let ?fs1 = "snd (secure_matches foreign_sibling [?gz])"
  have pre: "secure_matches foreign_sibling [?gz] = (None, ?fs1)"
    by code_simp
  have st: "Stat ?fs1 ?m = Inr (file_entry 6 4 4 False [80, 85, 84])"
    by code_simp
  have pm: "Perm (file_entry 6 4 4 False [80, 85, 84]) \<noteq> octal 6 4 0"
    by code_simp
  have ch: "Chmod ?fs1 ?m (octal 6 4 0) = (Some EPERM, ?fs1)"
    by code_simp
  have "secure_matches foreign_sibling ([?gz] @ ?m # [?live]) =
      (Some (Errorf (''failed to chmod log file '' @ ?m) (Errno EPERM)), ?fs1)"
    using first_error_ends_pass
      [where fs = foreign_sibling and pre = "[?gz]" and ?fs1.0 = ?fs1 and m = ?m
         and info = "file_entry 6 4 4 False [80, 85, 84]" and err = EPERM and ?fs2.0 = ?fs1
         and post = "[?live]"]
      pre st pm ch
    by blast
  then have stop: "secure_matches foreign_sibling [?gz, ?m, ?live] =
      (Some (Errorf
          ''failed to chmod log file /var/log/apache2/access-2023-10-10T13-55-36.000.log''
          (Errno EPERM)), ?fs1)"
    by simp
  have fixed: "mode_at ?fs1 ?gz = Some (octal 6 4 0)"
    by code_simp
  have left: "mode_at ?fs1 ?live = Some (octal 6 4 4)"
    by code_simp
  show ?thesis using pre stop fixed left by simp
qed

text \<open>
  C3 as the specification states it fails. A candidate that is gone when the loop
  reaches it is not skipped: the pass fails with its \<^verbatim>\<open>ENOENT\<close>, and the live log after
  it keeps its mode 0644. A candidate whose mode cannot be changed ends the pass too,
  and the live log after it is again left at 0644.
\<close>

theorem missing_file_fails_pass:
  "secure_matches rotated_logs
       [''/var/log/apache2/access-2023-10-08T00-00-00.000.log.gz'',
        ''/var/log/apache2/access.log'']
     = (Some (Errorf
          ''failed to stat log file /var/log/apache2/access-2023-10-08T00-00-00.000.log.gz''
          (Errno ENOENT)), rotated_logs)
   \<and> mode_at rotated_logs ''/var/log/apache2/access.log'' = Some (octal 6 4 4)
   \<and> fst (SecureRotatedLogs foreign_sibling ''/var/log/apache2/access.log'')
     = Some (Errorf
         ''failed to chmod log file /var/log/apache2/access-2023-10-10T13-55-36.000.log''
         (Errno EPERM))
   \<and> mode_at (snd (SecureRotatedLogs foreign_sibling ''/var/log/apache2/access.log''))
        ''/var/log/apache2/access.log''
     = Some (octal 6 4 4)
   \<and> octal 6 4 4 \<noteq> octal 6 4 0"
  by code_simp

text \<open>
  C7 fails in the code. The source creates the missing log file with
  \<^verbatim>\<open>os.OpenFile(..., 0640)\<close>, under the comment that this creates it with the mode 0640,
  and the branch for an existing file corrects every other mode to exactly 0640. The
  mode given to \<^verbatim>\<open>OpenFile\<close> is cut by the umask, however: for a process under the
  umask 077 the first run, on a log directory that has no \<^verbatim>\<open>apache2\<close> subdirectory yet,
  returns no error and leaves the new file at mode 0600 (and the new directory at 0700),
  and the second run on the resulting state is not without effect: it returns no error
  and changes the file's mode to 0640.
\<close>

theorem strict_umask_second_run_changes:
  "fst (secureLogFile strict_umask_dir ''/var/log/apache2/access.log'') = None
   \<and> Stat strict_umask_dir ''/var/log/apache2/access.log'' = Inl ENOENT
   \<and> Stat (snd (secureLogFile strict_umask_dir ''/var/log/apache2/access.log''))
        ''/var/log/apache2/access.log'' = Inr (file_entry 6 0 0 True [])
   \<and> mode_at (snd (secureLogFile strict_umask_dir ''/var/log/apache2/access.log''))
        ''/var/log/apache2'' = Some (octal 7 0 0)
   \<and> octal 6 0 0 \<noteq> octal 6 4 0
   \<and> fst (secureLogFile (snd (secureLogFile strict_umask_dir ''/var/log/apache2/access.log''))
        ''/var/log/apache2/access.log'') = None
   \<and> Stat (snd (secureLogFile
          (snd (secureLogFile strict_umask_dir ''/var/log/apache2/access.log''))
          ''/var/log/apache2/access.log'')) ''/var/log/apache2/access.log''
       = Inr (file_entry 6 4 0 True [])
   \<and> snd (secureLogFile (snd (secureLogFile strict_umask_dir ''/var/log/apache2/access.log''))
        ''/var/log/apache2/access.log'')
       \<noteq> snd (secureLogFile strict_umask_dir ''/var/log/apache2/access.log'')"
  by code_simp

text \<open>
  C10. When \<^verbatim>\<open>Stat\<close> finds a file at the path, \<^verbatim>\<open>secureLogFile\<close> leaves its content (and
  so its size), its kind, its owner and its group as they are and changes at most its
  permission bits, to 0640; every other file or directory that was there is unchanged,
  and so are the umask, the working directory and the user of the process. When the
  file's directory is there as well, nothing is created either: the call returns the
  file system as it was if the mode is 0640 already, or if the process may not change
  it (the call then fails), and otherwise the file system as it was but for the file's
  permission bits. When the file is there but \<^verbatim>\<open>Stat\<close> fails for another reason than a
  missing file (a directory on the way that the process may not search), the call fails
  and changes nothing.
\<close>

theorem secureLogFile_touches_only_mode:
  "(target fs p = Inr (k, info) \<longrightarrow>
      (\<exists>info'. entry (snd (secureLogFile fs p)) k = Some info'
         \<and> Content info' = Content info \<and> IsDir info' = IsDir info
         \<and> Owned info' = Owned info \<and> InGroup info' = InGroup info
         \<and> (Perm info' = Perm info \<or> Perm info' = octal 6 4 0))
      \<and> (\<forall>q other. q \<noteq> k \<and> entry fs q = Some other \<longrightarrow>
            entry (snd (secureLogFile fs p)) q = Some other)
      \<and> umask (snd (secureLogFile fs p)) = umask fs
      \<and> cwd (snd (secureLogFile fs p)) = cwd fs
      \<and> superuser (snd (secureLogFile fs p)) = superuser fs)
   \<and> (target fs p = Inr (k, info) \<and> Stat fs (Dir p) = Inr d \<and> IsDir d \<longrightarrow>
        secureLogFile fs p =
          (if Perm info = octal 6 4 0 then (None, fs)
           else if superuser fs \<or> Owned info
             then (None, put fs k (info\<lparr>Perm := octal 6 4 0\<rparr>))
           else (Some (Errorf ''failed to set log file permissions'' (Errno EPERM)), fs)))
   \<and> (Stat fs p = Inl err \<and> err \<noteq> ENOENT \<and> Stat fs (Dir p) = Inr d \<and> IsDir d \<longrightarrow>
        secureLogFile fs p = (Some (Errorf ''failed to check log file'' (Errno err)), fs))"
proof -
  have frame: "(\<exists>info'. entry (snd (secureLogFile fs p)) k = Some info'
         \<and> Content info' = Content info \<and> IsDir info' = IsDir info
         \<and> Owned info' = Owned info \<and> InGroup info' = InGroup info
         \<and> (Perm info' = Perm info \<or> Perm info' = octal 6 4 0))
      \<and> (\<forall>q other. q \<noteq> k \<and> entry fs q = Some other \<longrightarrow>
            entry (snd (secureLogFile fs p)) q = Some other)
      \<and> umask (snd (secureLogFile fs p)) = umask fs
      \<and> cwd (snd (secureLogFile fs p)) = cwd fs
      \<and> superuser (snd (secureLogFile fs p)) = superuser fs"
    if t: "target fs p = Inr (k, info)"
  proof -
    from secureLogFile_frame [OF t] obtain info' where
      e: "entry (snd (secureLogFile fs p)) k = Some info'"
      and i: "info' = info \<or> info' = info\<lparr>Perm := octal 6 4 0\<rparr>"
      and others: "\<forall>q other. q \<noteq> k \<and> entry fs q = Some other \<longrightarrow>
            entry (snd (secureLogFile fs p)) q = Some other"
      and sp: "same_process fs (snd (secureLogFile fs p))"
      by blast
    from i have "Content info' = Content info \<and> IsDir info' = IsDir info
         \<and> Owned info' = Owned info \<and> InGroup info' = InGroup info
         \<and> (Perm info' = Perm info \<or> Perm info' = octal 6 4 0)"
      by auto
    with e others sp show ?thesis by (simp add: same_process_def)
  qed
  have exact: "secureLogFile fs p =
          (if Perm info = octal 6 4 0 then (None, fs)
           else if superuser fs \<or> Owned info
             then (None, put fs k (info\<lparr>Perm := octal 6 4 0\<rparr>))
           else (Some (Errorf ''failed to set log file permissions'' (Errno EPERM)), fs))"
    if "target fs p = Inr (k, info) \<and> Stat fs (Dir p) = Inr d \<and> IsDir d"
    using that secureLogFile_existing [of fs p k info d] by blast
  have closed: "secureLogFile fs p = (Some (Errorf ''failed to check log file'' (Errno err)), fs)"
    if "Stat fs p = Inl err \<and> err \<noteq> ENOENT \<and> Stat fs (Dir p) = Inr d \<and> IsDir d"
    using that secureLogFile_unreachable [of fs p err d] by blast
  show ?thesis using frame exact closed by blast
qed

theorem secureLogFile_touches_only_mode_witness:
  "target rotated_logs ''/var/log/apache2/access.log'' =
     Inr ([''var'', ''log'', ''apache2'', ''access.log''], file_entry 6 4 4 True [71, 69, 84])
   \<and> secureLogFile rotated_logs ''/var/log/apache2/access.log'' =
       (None, put rotated_logs [''var'', ''log'', ''apache2'', ''access.log'']
                (file_entry 6 4 0 True [71, 69, 84]))
   \<and> files (snd (secureLogFile rotated_logs ''/var/log/apache2/access.log'')) =
       [([], dir_entry 7 5 5 False), ([''var''], dir_entry 7 5 5 False),
        ([''var'', ''log''], dir_entry 7 5 5 True),
        ([''var'', ''log'', ''apache2''], dir_entry 7 5 0 True),
        ([''var'', ''log'', ''apache2'', ''access.log''], file_entry 6 4 0 True [71, 69, 84]),
        ([''var'', ''log'', ''apache2'', ''access-2023-10-10T13-55-36.000.log''],
         file_entry 6 0 0 True [80, 85, 84]),
        ([''var'', ''log'', ''apache2'', ''access-2023-10-09T13-55-36.000.log.gz''],
         file_entry 6 4 0 True [31, 139]),
        ([''var'', ''log'', ''apache2'', ''error.log''], file_entry 6 4 4 True [33])]
   \<and> entry (snd (secureLogFile rotated_logs ''/var/log/apache2/access.log''))
        [''var'', ''log'', ''apache2'', ''error.log''] = Some (file_entry 6 4 4 True [33])
   \<and> Stat closed_logs ''/srv/app.log'' = Inl EACCES
   \<and> secureLogFile closed_logs ''/srv/app.log'' =
       (Some (Errorf ''failed to check log file'' (Errno EACCES)), closed_logs)"
proof -
  let ?p = "''/var/log/apache2/access.log''"
  let ?k = "[''var'', ''log'', ''apache2'', ''access.log'']"
  let ?info = "file_entry 6 4 4 True [71, 69, 84]"
  let ?d = "dir_entry 7 5 0 True"
  have t: "target rotated_logs ?p = Inr (?k, ?info)"
    by code_simp
  have d: "Stat rotated_logs (Dir ?p) = Inr ?d" "IsDir ?d"
    by code_simp+
  have c: "Perm ?info \<noteq> octal 6 4 0" "Owned ?info"
    by code_simp+
  have e: "?info\<lparr>Perm := octal 6 4 0\<rparr> = file_entry 6 4 0 True [71, 69, 84]"
    by (simp add: file_entry_def)
  have o: "entry rotated_logs [''var'', ''log'', ''apache2'', ''error.log'']
      = Some (file_entry 6 4 4 True [33])"
    by code_simp
  note inst = secureLogFile_touches_only_mode
      [where fs = rotated_logs and p = ?p and k = ?k and info = ?info and d = ?d]
  have "secureLogFile rotated_logs ?p =
      (if Perm ?info = octal 6 4 0 then (None, rotated_logs)
       else if superuser rotated_logs \<or> Owned ?info
         then (None, put rotated_logs ?k (?info\<lparr>Perm := octal 6 4 0\<rparr>))
       else (Some (Errorf ''failed to set log file permissions'' (Errno EPERM)), rotated_logs))"
    by (rule inst [THEN conjunct2, THEN conjunct1, THEN mp]) (intro conjI t d)
  also have "\<dots> =
      (if superuser rotated_logs \<or> Owned ?info
         then (None, put rotated_logs ?k (?info\<lparr>Perm := octal 6 4 0\<rparr>))
       else (Some (Errorf ''failed to set log file permissions'' (Errno EPERM)), rotated_logs))"
    by (rule if_not_P) (rule c(1))
  also have "\<dots> = (None, put rotated_logs ?k (?info\<lparr>Perm := octal 6 4 0\<rparr>))"
    by (rule if_P) (rule disjI2, rule c(2))
  finally have s: "secureLogFile rotated_logs ?p =
      (None, put rotated_logs ?k (file_entry 6 4 0 True [71, 69, 84]))"
    unfolding e .
  have ne: "[''var'', ''log'', ''apache2'', ''error.log''] \<noteq> ?k"
    by simp
  have other: "entry (snd (secureLogFile rotated_logs ?p))
      [''var'', ''log'', ''apache2'', ''error.log''] = Some (file_entry 6 4 4 True [33])"
    by (rule inst [THEN conjunct1, THEN mp, OF t, THEN conjunct2, THEN conjunct1, rule_format])
       (intro conjI ne o)
  have f: "files (put rotated_logs ?k (file_entry 6 4 0 True [71, 69, 84])) =
       [([], dir_entry 7 5 5 False), ([''var''], dir_entry 7 5 5 False),
        ([''var'', ''log''], dir_entry 7 5 5 True),
        ([''var'', ''log'', ''apache2''], dir_entry 7 5 0 True),
        ([''var'', ''log'', ''apache2'', ''access.log''], file_entry 6 4 0 True [71, 69, 84]),
        ([''var'', ''log'', ''apache2'', ''access-2023-10-10T13-55-36.000.log''],
         file_entry 6 0 0 True [80, 85, 84]),
        ([''var'', ''log'', ''apache2'', ''access-2023-10-09T13-55-36.000.log.gz''],
         file_entry 6 4 0 True [31, 139]),
        ([''var'', ''log'', ''apache2'', ''error.log''], file_entry 6 4 4 True [33])]"
    by code_simp
  let ?q = "''/srv/app.log''"
  let ?sd = "dir_entry 7 0 0 False"
  have st: "Stat closed_logs ?q = Inl EACCES"
    by code_simp
  have sd: "Stat closed_logs (Dir ?q) = Inr ?sd" "IsDir ?sd"
    by code_simp+
  have "EACCES \<noteq> ENOENT"
    by simp
  then have cl: "secureLogFile closed_logs ?q =
      (Some (Errorf ''failed to check log file'' (Errno EACCES)), closed_logs)"
    by (intro secureLogFile_touches_only_mode
          [where fs = closed_logs and p = ?q and err = EACCES and d = ?sd,
            THEN conjunct2, THEN conjunct2, THEN mp] conjI st sd)
  have fs: "files (snd (secureLogFile rotated_logs ?p)) =
      files (put rotated_logs ?k (file_entry 6 4 0 True [71, 69, 84]))"
    by (simp only: s snd_conv)
  show ?thesis
    by (intro conjI t s other st cl) (simp only: fs f)
qed






end
